theory Spec2Isabelle
  imports Main
begin

section \<open>The task store and its request handlers (server.js)\<close>

text \<open>
  The program is an HTTP front end over three SQL tables. The embedding keeps the
  handlers as they are written: one definition per route, the store calls in the
  order of the source, every \<^verbatim>\<open>catch\<close> and every early \<^verbatim>\<open>return\<close> a branch.

  What the source leaves to the database is modelled as follows.
  \<^item> A table is the list of its rows in the order in which the engine yields them
    to a \<^verbatim>\<open>SELECT\<close> that has no \<^verbatim>\<open>ORDER BY\<close>; an inserted row is yielded after
    the rows already there, a deletion keeps the order of the others, and
    \<^verbatim>\<open>ORDER BY\<close> sorts. Every store that the handlers reach from the empty tables
    has its rows in ascending order of their ids (lemma \<open>reachable_consistent\<close>).
  \<^item> The columns are those of \<^verbatim>\<open>initDatabase\<close>: \<^verbatim>\<open>NOT NULL\<close>, the widths of
    \<^verbatim>\<open>VARCHAR\<close> and \<^verbatim>\<open>TEXT\<close>, the range of \<^verbatim>\<open>TINYINT\<close> and the primary keys are
    enforced, a value that does not fit is refused (strict mode). \<^verbatim>\<open>BOOLEAN\<close> is
    \<^verbatim>\<open>TINYINT(1)\<close>: a nullable integer column, \<^verbatim>\<open>TRUE\<close> is 1 and \<^verbatim>\<open>FALSE\<close> is 0.
  \<^item> \<^verbatim>\<open>AUTO_INCREMENT\<close> is a counter per table; it is not restored by a rollback.
  \<^item> Any call to the store may also fail for reasons outside the program (a lost
    connection); the handlers take the set of failing call sites as a parameter.
  \<^item> Obtaining a connection from the pool, \<^verbatim>\<open>rollback\<close> and \<^verbatim>\<open>release\<close> succeed.
    The connections are not modelled: the early returns of \<^verbatim>\<open>POST\<close> (400) and
    \<^verbatim>\<open>PUT\<close> (404) release theirs with the transaction still open, having written
    nothing.
  \<^item> Requests are served one after the other.

  Request bodies are typed as the interface describes them: titles, descriptions and
  tags are strings, a priority is one of the three enumerated values, a due date is a
  calendar day; \<^verbatim>\<open>completed\<close> is a boolean or an integer, since the handlers pass it
  to the store as it comes. An absent, \<^verbatim>\<open>null\<close> or undefined field is \<open>None\<close>. Strings
  are lists of characters with codes below 256.
\<close>

subsection \<open>Rows, tables, requests and responses\<close>

type_synonym date = int
type_synonym timestamp = nat

datatype priority = Low | Medium | High

record task_row =
  task_id :: nat
  title :: string
  description :: "string option"
  priority :: priority
  due_date :: "date option"
  completed :: "int option"
  created_at :: timestamp
  updated_at :: timestamp

record tag_row =
  tag_id :: nat
  tag_task_id :: nat
  tag_name :: string

record subtask_row =
  subtask_id :: nat
  subtask_task_id :: nat
  subtask_text :: string
  subtask_completed :: "int option"
  subtask_created_at :: timestamp

record store =
  tasks_tbl :: "task_row list"
  tags_tbl :: "tag_row list"
  subtasks_tbl :: "subtask_row list"
  next_task_id :: nat
  next_tag_id :: nat
  next_subtask_id :: nat

text \<open>The three tables, without the counters: what a transaction commits or rolls back.\<close>

definition tables :: "store \<Rightarrow> task_row list \<times> tag_row list \<times> subtask_row list" where
  "tables s = (tasks_tbl s, tags_tbl s, subtasks_tbl s)"

text \<open>The columns \<^verbatim>\<open>id, text, completed\<close> of a subtask, as the handlers select them.\<close>

type_synonym subtask_view = "nat \<times> string \<times> int option"

record enriched =
  row :: task_row
  tags :: "string list"
  subtasks :: "subtask_view list"

record create_body =
  c_title :: "string option"
  c_description :: "string option"
  c_priority :: "priority option"
  c_due_date :: "date option"
  c_tags :: "string list option"
  c_subtasks :: "string list option"

text \<open>The value of a \<^verbatim>\<open>completed\<close> field of a request: a boolean or an integer.\<close>

datatype json_flag = JBool bool | JNum int

text \<open>An entry of \<^verbatim>\<open>subtasks\<close> in an update: a string, or an object with \<^verbatim>\<open>text\<close> and
  \<^verbatim>\<open>completed\<close>.\<close>

datatype subtask_in = Plain string | Structured "string option" "json_flag option"

record update_body =
  u_title :: "string option"
  u_description :: "string option"
  u_priority :: "priority option"
  u_due_date :: "date option"
  u_completed :: "json_flag option"
  u_tags :: "string list option"
  u_subtasks :: "subtask_in list option"

record stats =
  total :: nat
  completed_tasks :: nat
  active :: nat
  overdue :: nat

datatype body =
    Task enriched
  | Tasks "enriched list"
  | Toggled nat bool
  | Deleted string nat
  | Stats stats
  | Error string

type_synonym response = "nat \<times> body"

subsection \<open>Failures of the store and of the handler\<close>

datatype error =
    Connection_Error | Column_Null | Data_Too_Long | Out_Of_Range | Duplicate_Entry | Type_Error

datatype site =
    Begin | Commit
  | Select_All_Tasks | Select_Task | Select_Tags | Select_Subtasks
  | Insert_Task | Insert_Tags | Insert_Subtasks
  | Check_Exists | Update_Task | Delete_Tags | Delete_Subtasks
  | Select_Completed | Update_Completed | Delete_Task
  | Count_Total | Count_Completed | Count_Active | Count_Overdue

type_synonym faults = "site \<Rightarrow> bool"

definition healthy :: faults where
  "healthy = (\<lambda>_. False)"

subsection \<open>JavaScript on the request fields\<close>

definition js_space :: "char \<Rightarrow> bool" where
  "js_space c = (c \<in> set [CHR 0x09, CHR 0x0A, CHR 0x0B, CHR 0x0C, CHR 0x0D, CHR 0x20, CHR 0xA0])"

definition trim :: "string \<Rightarrow> string" where
  "trim t = rev (dropWhile js_space (rev (dropWhile js_space t)))"

text \<open>\<^verbatim>\<open>x || null\<close> on a string: the empty string is falsy.\<close>

definition or_null :: "string option \<Rightarrow> string option" where
  "or_null x = (case x of None \<Rightarrow> None | Some t \<Rightarrow> if t = [] then None else Some t)"

text \<open>\<^verbatim>\<open>priority || 'medium'\<close> and \<^verbatim>\<open>completed || false\<close>.\<close>

definition or_medium :: "priority option \<Rightarrow> priority" where
  "or_medium p = (case p of None \<Rightarrow> Medium | Some q \<Rightarrow> q)"

definition truthy :: "json_flag \<Rightarrow> bool" where
  "truthy v = (case v of JBool b \<Rightarrow> b | JNum n \<Rightarrow> n \<noteq> 0)"

definition or_false :: "json_flag option \<Rightarrow> json_flag" where
  "or_false c = (case c of None \<Rightarrow> JBool False | Some v \<Rightarrow> if truthy v then v else JBool False)"

text \<open>A parameter of a query, as the store reads it: \<^verbatim>\<open>true\<close> is 1, \<^verbatim>\<open>false\<close> is 0.\<close>

definition sql_bool :: "bool \<Rightarrow> int" where
  "sql_bool b = (if b then 1 else 0)"

definition sql_value :: "json_flag \<Rightarrow> int" where
  "sql_value v = (case v of JBool b \<Rightarrow> sql_bool b | JNum n \<Rightarrow> n)"

text \<open>\<^verbatim>\<open>TINYINT\<close> holds the integers from -128 to 127.\<close>

definition tinyint :: "int \<Rightarrow> bool" where
  "tinyint n = (- 128 \<le> n \<and> n \<le> 127)"

text \<open>A column value read back into JavaScript, under \<^verbatim>\<open>!\<close>: \<^verbatim>\<open>null\<close> and 0 are falsy.\<close>

definition truthy_column :: "int option \<Rightarrow> bool" where
  "truthy_column c = (case c of None \<Rightarrow> False | Some n \<Rightarrow> n \<noteq> 0)"

text \<open>\<^verbatim>\<open>xs && Array.isArray(xs) && xs.length > 0\<close>: the rows to insert, if any.\<close>

definition non_empty :: "'a list option \<Rightarrow> 'a list option" where
  "non_empty xs = (case xs of None \<Rightarrow> None | Some [] \<Rightarrow> None | Some (y # ys) \<Rightarrow> Some (y # ys))"

text \<open>The row values of a subtask entry of an update (lines 248 to 252).\<close>

fun subtask_values :: "subtask_in \<Rightarrow> string option \<times> int" where
  "subtask_values (Plain t) = (Some t, sql_bool False)"
| "subtask_values (Structured t c) = (t, sql_value (or_false c))"

subsection \<open>The statements\<close>

definition begin_transaction :: "faults \<Rightarrow> store \<Rightarrow> error \<times> store + store" where
  "begin_transaction flt s = (if flt Begin then Inl (Connection_Error, s) else Inr s)"

definition commit :: "faults \<Rightarrow> store \<Rightarrow> error \<times> store + store" where
  "commit flt s = (if flt Commit then Inl (Connection_Error, s) else Inr s)"

text \<open>\<^verbatim>\<open>rollback\<close> of the transaction begun at \<open>s0\<close>: the tables are those of \<open>s0\<close>, the
  counters stay.\<close>

definition rollback :: "store \<Rightarrow> store \<Rightarrow> store" where
  "rollback s0 s = s\<lparr>tasks_tbl := tasks_tbl s0, tags_tbl := tags_tbl s0,
     subtasks_tbl := subtasks_tbl s0\<rparr>"

definition select_all_tasks :: "faults \<Rightarrow> store \<Rightarrow> error + task_row list" where
  "select_all_tasks flt s =
     (if flt Select_All_Tasks then Inl Connection_Error
      else Inr (sort_key (\<lambda>r. - int (created_at r)) (tasks_tbl s)))"

definition select_task :: "faults \<Rightarrow> store \<Rightarrow> nat \<Rightarrow> error + task_row list" where
  "select_task flt s i =
     (if flt Select_Task then Inl Connection_Error
      else Inr (filter (\<lambda>r. task_id r = i) (tasks_tbl s)))"

definition select_tags :: "faults \<Rightarrow> store \<Rightarrow> nat \<Rightarrow> error + string list" where
  "select_tags flt s i =
     (if flt Select_Tags then Inl Connection_Error
      else Inr (map tag_name (filter (\<lambda>r. tag_task_id r = i) (tags_tbl s))))"

definition view :: "subtask_row \<Rightarrow> subtask_view" where
  "view r = (subtask_id r, subtask_text r, subtask_completed r)"

text \<open>The subtasks of a task, as \<^verbatim>\<open>GET /api/tasks/:id\<close>, \<^verbatim>\<open>POST\<close> and \<^verbatim>\<open>PUT\<close> select
  them (no \<^verbatim>\<open>ORDER BY\<close>), and as \<^verbatim>\<open>GET /api/tasks\<close> does (\<^verbatim>\<open>ORDER BY id\<close>).\<close>

definition select_subtasks :: "faults \<Rightarrow> store \<Rightarrow> nat \<Rightarrow> error + subtask_view list" where
  "select_subtasks flt s i =
     (if flt Select_Subtasks then Inl Connection_Error
      else Inr (map view (filter (\<lambda>r. subtask_task_id r = i) (subtasks_tbl s))))"

definition select_subtasks_by_id :: "faults \<Rightarrow> store \<Rightarrow> nat \<Rightarrow> error + subtask_view list" where
  "select_subtasks_by_id flt s i =
     (if flt Select_Subtasks then Inl Connection_Error
      else Inr (map view (sort_key subtask_id
        (filter (\<lambda>r. subtask_task_id r = i) (subtasks_tbl s)))))"

definition insert_task ::
  "faults \<Rightarrow> timestamp \<Rightarrow> string \<Rightarrow> string option \<Rightarrow> priority \<Rightarrow> date option \<Rightarrow> store
     \<Rightarrow> error \<times> store + nat \<times> store" where
  "insert_task flt now t d p dd s =
     (if flt Insert_Task then Inl (Connection_Error, s)
      else if 255 < length t then Inl (Data_Too_Long, s)
      else if (case d of None \<Rightarrow> False | Some x \<Rightarrow> 65535 < length x) then Inl (Data_Too_Long, s)
      else if next_task_id s \<in> set (map task_id (tasks_tbl s)) then Inl (Duplicate_Entry, s)
      else Inr (next_task_id s,
        s\<lparr>tasks_tbl := tasks_tbl s @
             [\<lparr>task_id = next_task_id s, title = t, description = d, priority = p,
               due_date = dd, completed = Some 0, created_at = now, updated_at = now\<rparr>],
          next_task_id := Suc (next_task_id s)\<rparr>))"

definition fresh_ids :: "nat \<Rightarrow> nat \<Rightarrow> nat list \<Rightarrow> bool" where
  "fresh_ids n k used = (list_all (\<lambda>i. \<not> (n \<le> i \<and> i < n + k)) used)"

definition insert_tags :: "faults \<Rightarrow> nat \<Rightarrow> string list \<Rightarrow> store \<Rightarrow> error \<times> store + store" where
  "insert_tags flt i names s =
     (if flt Insert_Tags then Inl (Connection_Error, s)
      else if list_ex (\<lambda>n. 100 < length n) names then Inl (Data_Too_Long, s)
      else if \<not> fresh_ids (next_tag_id s) (length names) (map tag_id (tags_tbl s))
        then Inl (Duplicate_Entry, s)
      else Inr (s\<lparr>tags_tbl := tags_tbl s @
                  map (\<lambda>(k, n). \<lparr>tag_id = k, tag_task_id = i, tag_name = n\<rparr>)
                    (zip [next_tag_id s ..< next_tag_id s + length names] names),
                next_tag_id := next_tag_id s + length names\<rparr>))"

definition insert_subtasks ::
  "faults \<Rightarrow> timestamp \<Rightarrow> nat \<Rightarrow> (string option \<times> int) list \<Rightarrow> store \<Rightarrow> error \<times> store + store" where
  "insert_subtasks flt now i vals s =
     (if flt Insert_Subtasks then Inl (Connection_Error, s)
      else if list_ex (\<lambda>v. fst v = None) vals then Inl (Column_Null, s)
      else if list_ex (\<lambda>v. case fst v of None \<Rightarrow> False | Some t \<Rightarrow> 255 < length t) vals
        then Inl (Data_Too_Long, s)
      else if list_ex (\<lambda>v. \<not> tinyint (snd v)) vals then Inl (Out_Of_Range, s)
      else if \<not> fresh_ids (next_subtask_id s) (length vals) (map subtask_id (subtasks_tbl s))
        then Inl (Duplicate_Entry, s)
      else Inr (s\<lparr>subtasks_tbl := subtasks_tbl s @
                  map (\<lambda>(k, v). \<lparr>subtask_id = k, subtask_task_id = i,
                         subtask_text = (case fst v of None \<Rightarrow> [] | Some t \<Rightarrow> t),
                         subtask_completed = Some (snd v), subtask_created_at = now\<rparr>)
                    (zip [next_subtask_id s ..< next_subtask_id s + length vals] vals),
                next_subtask_id := next_subtask_id s + length vals\<rparr>))"

text \<open>\<^verbatim>\<open>updated_at ... ON UPDATE CURRENT_TIMESTAMP\<close>: refreshed when a column changes.\<close>

definition touch :: "timestamp \<Rightarrow> task_row \<Rightarrow> task_row \<Rightarrow> task_row" where
  "touch now old new = (if new = old then old else new\<lparr>updated_at := now\<rparr>)"

definition check_exists :: "faults \<Rightarrow> store \<Rightarrow> nat \<Rightarrow> error \<times> store + nat list" where
  "check_exists flt s i =
     (if flt Check_Exists then Inl (Connection_Error, s)
      else Inr (map task_id (filter (\<lambda>r. task_id r = i) (tasks_tbl s))))"

definition update_row ::
  "faults \<Rightarrow> timestamp \<Rightarrow> nat \<Rightarrow> string option \<Rightarrow> string option \<Rightarrow> priority \<Rightarrow> date option
     \<Rightarrow> int \<Rightarrow> store \<Rightarrow> error \<times> store + store" where
  "update_row flt now i t d p dd c s =
     (if flt Update_Task then Inl (Connection_Error, s)
      else if \<not> list_ex (\<lambda>r. task_id r = i) (tasks_tbl s) then Inr s
      else (case t of
          None \<Rightarrow> Inl (Column_Null, s)
        | Some t' \<Rightarrow>
            if 255 < length t' then Inl (Data_Too_Long, s)
            else if (case d of None \<Rightarrow> False | Some x \<Rightarrow> 65535 < length x)
              then Inl (Data_Too_Long, s)
            else if \<not> tinyint c then Inl (Out_Of_Range, s)
            else Inr (s\<lparr>tasks_tbl :=
              map (\<lambda>r. if task_id r = i
                         then touch now r (r\<lparr>title := t', description := d, priority := p,
                                due_date := dd, completed := Some c\<rparr>)
                         else r) (tasks_tbl s)\<rparr>)))"

definition delete_tags :: "faults \<Rightarrow> nat \<Rightarrow> store \<Rightarrow> error \<times> store + store" where
  "delete_tags flt i s =
     (if flt Delete_Tags then Inl (Connection_Error, s)
      else Inr (s\<lparr>tags_tbl := filter (\<lambda>r. tag_task_id r \<noteq> i) (tags_tbl s)\<rparr>))"

definition delete_subtasks :: "faults \<Rightarrow> nat \<Rightarrow> store \<Rightarrow> error \<times> store + store" where
  "delete_subtasks flt i s =
     (if flt Delete_Subtasks then Inl (Connection_Error, s)
      else Inr (s\<lparr>subtasks_tbl := filter (\<lambda>r. subtask_task_id r \<noteq> i) (subtasks_tbl s)\<rparr>))"

definition select_completed :: "faults \<Rightarrow> store \<Rightarrow> nat \<Rightarrow> error + int option list" where
  "select_completed flt s i =
     (if flt Select_Completed then Inl Connection_Error
      else Inr (map completed (filter (\<lambda>r. task_id r = i) (tasks_tbl s))))"

definition update_completed :: "faults \<Rightarrow> timestamp \<Rightarrow> nat \<Rightarrow> bool \<Rightarrow> store \<Rightarrow> error + store" where
  "update_completed flt now i c s =
     (if flt Update_Completed then Inl Connection_Error
      else Inr (s\<lparr>tasks_tbl :=
        map (\<lambda>r. if task_id r = i then touch now r (r\<lparr>completed := Some (sql_bool c)\<rparr>) else r)
          (tasks_tbl s)\<rparr>))"

text \<open>\<^verbatim>\<open>DELETE FROM tasks WHERE id = ?\<close> with \<^verbatim>\<open>ON DELETE CASCADE\<close> on both child tables;
  the first component is \<^verbatim>\<open>affectedRows\<close>.\<close>

definition delete_task_row :: "faults \<Rightarrow> nat \<Rightarrow> store \<Rightarrow> error + nat \<times> store" where
  "delete_task_row flt i s =
     (if flt Delete_Task then Inl Connection_Error
      else Inr (length (filter (\<lambda>r. task_id r = i) (tasks_tbl s)),
        if list_ex (\<lambda>r. task_id r = i) (tasks_tbl s)
        then s\<lparr>tasks_tbl := filter (\<lambda>r. task_id r \<noteq> i) (tasks_tbl s),
               tags_tbl := filter (\<lambda>r. tag_task_id r \<noteq> i) (tags_tbl s),
               subtasks_tbl := filter (\<lambda>r. subtask_task_id r \<noteq> i) (subtasks_tbl s)\<rparr>
        else s))"

subsection \<open>The conditions of the counting queries\<close>

text \<open>SQL comparisons are three-valued: a comparison with \<^verbatim>\<open>NULL\<close> is unknown (\<open>None\<close>),
  and \<^verbatim>\<open>WHERE\<close> keeps the rows whose condition is true.\<close>

definition sql_lt :: "date option \<Rightarrow> date option \<Rightarrow> bool option" where
  "sql_lt a b = (case a of None \<Rightarrow> None | Some x \<Rightarrow> (case b of None \<Rightarrow> None | Some y \<Rightarrow> Some (x < y)))"

definition sql_eq :: "int option \<Rightarrow> int option \<Rightarrow> bool option" where
  "sql_eq a b = (case a of None \<Rightarrow> None | Some x \<Rightarrow> (case b of None \<Rightarrow> None | Some y \<Rightarrow> Some (x = y)))"

definition sql_and :: "bool option \<Rightarrow> bool option \<Rightarrow> bool option" where
  "sql_and a b =
     (if a = Some False \<or> b = Some False then Some False
      else if a = Some True \<and> b = Some True then Some True
      else None)"

definition count_where :: "(task_row \<Rightarrow> bool option) \<Rightarrow> store \<Rightarrow> nat" where
  "count_where cond s = length (filter (\<lambda>r. cond r = Some True) (tasks_tbl s))"

definition is_completed :: "task_row \<Rightarrow> bool option" where
  "is_completed r = sql_eq (completed r) (Some (sql_bool True))"

definition is_active :: "task_row \<Rightarrow> bool option" where
  "is_active r = sql_eq (completed r) (Some (sql_bool False))"

definition is_overdue :: "date \<Rightarrow> task_row \<Rightarrow> bool option" where
  "is_overdue today r = sql_and (is_active r) (sql_lt (due_date r) (Some today))"

subsection \<open>The handlers\<close>



text \<open>\<^verbatim>\<open>GET /api/tasks/:id\<close>.\<close>

definition get_task :: "faults \<Rightarrow> store \<Rightarrow> nat \<Rightarrow> response \<times> store" where
  "get_task flt s i =
     (case select_task flt s i of
        Inl e \<Rightarrow> ((500, Error ''Failed to fetch task''), s)
      | Inr [] \<Rightarrow> ((404, Error ''Task not found''), s)
      | Inr (t # _) \<Rightarrow>
          (case select_tags flt s (task_id t) of
             Inl e \<Rightarrow> ((500, Error ''Failed to fetch task''), s)
           | Inr tg \<Rightarrow>
               (case select_subtasks flt s (task_id t) of
                  Inl e \<Rightarrow> ((500, Error ''Failed to fetch task''), s)
                | Inr sb \<Rightarrow> ((200, Task \<lparr>row = t, tags = tg, subtasks = sb\<rparr>), s))))"

text \<open>The three queries after \<^verbatim>\<open>commit\<close> in \<^verbatim>\<open>POST\<close> and \<^verbatim>\<open>PUT\<close>; \<^verbatim>\<open>tasks[0]\<close> of an
  empty result is undefined, and setting \<^verbatim>\<open>tags\<close> on it throws.\<close>

definition fetch_task :: "faults \<Rightarrow> store \<Rightarrow> nat \<Rightarrow> error + enriched" where
  "fetch_task flt s i =
     (case select_task flt s i of
        Inl e \<Rightarrow> Inl e
      | Inr ts \<Rightarrow>
          (case select_tags flt s i of
             Inl e \<Rightarrow> Inl e
           | Inr tg \<Rightarrow>
               (case ts of
                  [] \<Rightarrow> Inl Type_Error
                | t # _ \<Rightarrow>
                    (case select_subtasks flt s i of
                       Inl e \<Rightarrow> Inl e
                     | Inr sb \<Rightarrow> Inr \<lparr>row = t, tags = tg, subtasks = sb\<rparr>))))"

text \<open>\<^verbatim>\<open>POST /api/tasks\<close>: the statements between the validation and the commit.\<close>

definition create_steps ::
  "faults \<Rightarrow> timestamp \<Rightarrow> string \<Rightarrow> create_body \<Rightarrow> store \<Rightarrow> error \<times> store + nat \<times> store" where
  "create_steps flt now t b s =
     (case insert_task flt now t (or_null (c_description b)) (or_medium (c_priority b))
             (c_due_date b) s of
        Inl x \<Rightarrow> Inl x
      | Inr (taskId, s1) \<Rightarrow>
          (case (case non_empty (c_tags b) of
                   None \<Rightarrow> Inr s1
                 | Some tg \<Rightarrow> insert_tags flt taskId tg s1) of
             Inl x \<Rightarrow> Inl x
           | Inr s2 \<Rightarrow>
               (case (case non_empty (c_subtasks b) of
                        None \<Rightarrow> Inr s2
                      | Some st \<Rightarrow>
                          insert_subtasks flt now taskId (map (\<lambda>x. (Some x, sql_bool False)) st) s2) of
                  Inl x \<Rightarrow> Inl x
                | Inr s3 \<Rightarrow> Inr (taskId, s3))))"

definition create_task :: "faults \<Rightarrow> timestamp \<Rightarrow> store \<Rightarrow> create_body \<Rightarrow> response \<times> store" where
  "create_task flt now s b =
     (case begin_transaction flt s of
        Inl (e, s1) \<Rightarrow> ((500, Error ''Failed to create task''), rollback s s1)
      | Inr s0 \<Rightarrow>
          (case c_title b of
             None \<Rightarrow> ((400, Error ''Title is required''), s0)
           | Some t \<Rightarrow>
               if t = [] \<or> trim t = [] then ((400, Error ''Title is required''), s0)
               else
                 (case create_steps flt now t b s0 of
                    Inl (e, s1) \<Rightarrow> ((500, Error ''Failed to create task''), rollback s0 s1)
                  | Inr (taskId, s1) \<Rightarrow>
                      (case commit flt s1 of
                         Inl (e, s2) \<Rightarrow> ((500, Error ''Failed to create task''), rollback s0 s2)
                       | Inr s2 \<Rightarrow>
                           (case fetch_task flt s2 taskId of
                              Inl e \<Rightarrow> ((500, Error ''Failed to create task''), s2)
                            | Inr e \<Rightarrow> ((201, Task e), s2))))))"

text \<open>\<^verbatim>\<open>PUT /api/tasks/:id\<close>: the statements between the existence check and the commit.\<close>

definition update_steps ::
  "faults \<Rightarrow> timestamp \<Rightarrow> nat \<Rightarrow> update_body \<Rightarrow> store \<Rightarrow> error \<times> store + store" where
  "update_steps flt now i b s =
     (case update_row flt now i (u_title b) (or_null (u_description b)) (or_medium (u_priority b))
             (u_due_date b) (sql_value (or_false (u_completed b))) s of
        Inl x \<Rightarrow> Inl x
      | Inr s1 \<Rightarrow>
          (case delete_tags flt i s1 of
             Inl x \<Rightarrow> Inl x
           | Inr s2 \<Rightarrow>
               (case (case non_empty (u_tags b) of
                        None \<Rightarrow> Inr s2
                      | Some tg \<Rightarrow> insert_tags flt i tg s2) of
                  Inl x \<Rightarrow> Inl x
                | Inr s3 \<Rightarrow>
                    (case delete_subtasks flt i s3 of
                       Inl x \<Rightarrow> Inl x
                     | Inr s4 \<Rightarrow>
                         (case non_empty (u_subtasks b) of
                            None \<Rightarrow> Inr s4
                          | Some st \<Rightarrow>
                              insert_subtasks flt now i (map subtask_values st) s4)))))"

definition update_task ::
  "faults \<Rightarrow> timestamp \<Rightarrow> store \<Rightarrow> nat \<Rightarrow> update_body \<Rightarrow> response \<times> store" where
  "update_task flt now s i b =
     (case begin_transaction flt s of
        Inl (e, s1) \<Rightarrow> ((500, Error ''Failed to update task''), rollback s s1)
      | Inr s0 \<Rightarrow>
          (case check_exists flt s0 i of
             Inl (e, s1) \<Rightarrow> ((500, Error ''Failed to update task''), rollback s0 s1)
           | Inr [] \<Rightarrow> ((404, Error ''Task not found''), s0)
           | Inr (_ # _) \<Rightarrow>
               (case update_steps flt now i b s0 of
                  Inl (e, s1) \<Rightarrow> ((500, Error ''Failed to update task''), rollback s0 s1)
                | Inr s1 \<Rightarrow>
                    (case commit flt s1 of
                       Inl (e, s2) \<Rightarrow> ((500, Error ''Failed to update task''), rollback s0 s2)
                     | Inr s2 \<Rightarrow>
                         (case fetch_task flt s2 i of
                            Inl e \<Rightarrow> ((500, Error ''Failed to update task''), s2)
                          | Inr e \<Rightarrow> ((200, Task e), s2))))))"

text \<open>\<^verbatim>\<open>PATCH /api/tasks/:id/toggle\<close>.\<close>

definition toggle_task :: "faults \<Rightarrow> timestamp \<Rightarrow> store \<Rightarrow> nat \<Rightarrow> response \<times> store" where
  "toggle_task flt now s i =
     (case select_completed flt s i of
        Inl e \<Rightarrow> ((500, Error ''Failed to toggle task''), s)
      | Inr [] \<Rightarrow> ((404, Error ''Task not found''), s)
      | Inr (c # _) \<Rightarrow>
          (case update_completed flt now i (\<not> truthy_column c) s of
             Inl e \<Rightarrow> ((500, Error ''Failed to toggle task''), s)
           | Inr s1 \<Rightarrow> ((200, Toggled i (\<not> truthy_column c)), s1)))"

text \<open>\<^verbatim>\<open>DELETE /api/tasks/:id\<close>.\<close>

definition delete_task :: "faults \<Rightarrow> store \<Rightarrow> nat \<Rightarrow> response \<times> store" where
  "delete_task flt s i =
     (case delete_task_row flt i s of
        Inl e \<Rightarrow> ((500, Error ''Failed to delete task''), s)
      | Inr (affectedRows, s1) \<Rightarrow>
          if affectedRows = 0 then ((404, Error ''Task not found''), s1)
          else ((200, Deleted ''Task deleted successfully'' i), s1))"

text \<open>\<^verbatim>\<open>GET /api/stats\<close>: four counting queries, \<open>today\<close> is \<^verbatim>\<open>CURDATE()\<close>.\<close>

definition count_query :: "faults \<Rightarrow> site \<Rightarrow> (task_row \<Rightarrow> bool option) \<Rightarrow> store \<Rightarrow> error + nat" where
  "count_query flt q cond s = (if flt q then Inl Connection_Error else Inr (count_where cond s))"

definition get_stats :: "faults \<Rightarrow> date \<Rightarrow> store \<Rightarrow> response \<times> store" where
  "get_stats flt today s =
     (case count_query flt Count_Total (\<lambda>r. Some True) s of
        Inl e \<Rightarrow> ((500, Error ''Failed to fetch statistics''), s)
      | Inr t \<Rightarrow>
          (case count_query flt Count_Completed is_completed s of
             Inl e \<Rightarrow> ((500, Error ''Failed to fetch statistics''), s)
           | Inr c \<Rightarrow>
               (case count_query flt Count_Active is_active s of
                  Inl e \<Rightarrow> ((500, Error ''Failed to fetch statistics''), s)
                | Inr a \<Rightarrow>
                    (case count_query flt Count_Overdue (is_overdue today) s of
                       Inl e \<Rightarrow> ((500, Error ''Failed to fetch statistics''), s)
                     | Inr d \<Rightarrow>
                         ((200, Stats \<lparr>total = t, completed_tasks = c, active = a,
                                        overdue = d\<rparr>), s)))))"

subsection \<open>What is stored for a task\<close>



definition tags_of :: "store \<Rightarrow> nat \<Rightarrow> string list" where
  "tags_of s i = map tag_name (filter (\<lambda>r. tag_task_id r = i) (tags_tbl s))"

definition subtasks_of :: "store \<Rightarrow> nat \<Rightarrow> (string option \<times> int option) list" where
  "subtasks_of s i = map (\<lambda>r. (Some (subtask_text r), subtask_completed r))
     (filter (\<lambda>r. subtask_task_id r = i) (subtasks_tbl s))"

definition supplied :: "'a list option \<Rightarrow> 'a list" where
  "supplied xs = (case xs of None \<Rightarrow> [] | Some ys \<Rightarrow> ys)"

text \<open>What the specification asks an update to store for an entry of \<^verbatim>\<open>subtasks\<close>: a
  plain text is not completed, a structure carries its own flag, not completed when it
  has none.\<close>

fun requested_subtask :: "subtask_in \<Rightarrow> string option \<times> int option" where
  "requested_subtask (Plain t) = (Some t, Some 0)"
| "requested_subtask (Structured t None) = (t, Some 0)"
| "requested_subtask (Structured t (Some (JBool b))) = (t, Some (if b then 1 else 0))"
| "requested_subtask (Structured t (Some (JNum n))) = (t, Some n)"

text \<open>The counters are ahead of every stored id, as \<^verbatim>\<open>AUTO_INCREMENT\<close> keeps them.\<close>

definition counters_ahead :: "store \<Rightarrow> bool" where
  "counters_ahead s =
     (list_all (\<lambda>r. task_id r < next_task_id s) (tasks_tbl s)
      \<and> list_all (\<lambda>r. tag_id r < next_tag_id s) (tags_tbl s)
      \<and> list_all (\<lambda>r. subtask_id r < next_subtask_id s) (subtasks_tbl s))"

text \<open>A creation request that passes the validation of the handler and whose fields fit
  the columns.\<close>

definition fits :: "create_body \<Rightarrow> bool" where
  "fits b =
     ((case c_title b of None \<Rightarrow> False | Some t \<Rightarrow> trim t \<noteq> [] \<and> length t \<le> 255)
      \<and> (case c_description b of None \<Rightarrow> True | Some x \<Rightarrow> length x \<le> 65535)
      \<and> list_all (\<lambda>n. length n \<le> 100) (supplied (c_tags b))
      \<and> list_all (\<lambda>x. length x \<le> 255) (supplied (c_subtasks b)))"

text \<open>An update request whose fields fit the columns: it has a title, every subtask entry
  has a text, and the flags are in the range of the column.\<close>

definition flag_fits :: "json_flag option \<Rightarrow> bool" where
  "flag_fits c = (case c of None \<Rightarrow> True | Some (JBool b) \<Rightarrow> True | Some (JNum n) \<Rightarrow> tinyint n)"

fun entry_fits :: "subtask_in \<Rightarrow> bool" where
  "entry_fits (Plain t) = (length t \<le> 255)"
| "entry_fits (Structured None c) = False"
| "entry_fits (Structured (Some t) c) = (length t \<le> 255 \<and> flag_fits c)"

definition fits_update :: "update_body \<Rightarrow> bool" where
  "fits_update b =
     ((case u_title b of None \<Rightarrow> False | Some t \<Rightarrow> length t \<le> 255)
      \<and> (case u_description b of None \<Rightarrow> True | Some x \<Rightarrow> length x \<le> 65535)
      \<and> flag_fits (u_completed b)
      \<and> list_all (\<lambda>n. length n \<le> 100) (supplied (u_tags b))
      \<and> list_all entry_fits (supplied (u_subtasks b)))"

subsection \<open>The stores that the handlers reach\<close>

text \<open>The tables as \<^verbatim>\<open>initDatabase\<close> creates them.\<close>

definition empty_store :: store where
  "empty_store = \<lparr>tasks_tbl = [], tags_tbl = [], subtasks_tbl = [],
     next_task_id = 1, next_tag_id = 1, next_subtask_id = 1\<rparr>"

text \<open>Every request that writes, with any body, at any time and under any failures of the
  store.\<close>

inductive reachable :: "store \<Rightarrow> bool" where
  initial: "reachable empty_store"
| created: "reachable s \<Longrightarrow> reachable (snd (create_task flt now s b))"
| updated: "reachable s \<Longrightarrow> reachable (snd (update_task flt now s i u))"
| toggled: "reachable s \<Longrightarrow> reachable (snd (toggle_task flt now s i))"
| deleted: "reachable s \<Longrightarrow> reachable (snd (delete_task flt s i))"

text \<open>The counters are ahead and the subtasks are in ascending order of their ids.\<close>

definition consistent :: "store \<Rightarrow> bool" where
  "consistent s = (counters_ahead s \<and> sorted (map subtask_id (subtasks_tbl s)))"

definition grows :: "store \<Rightarrow> store \<Rightarrow> bool" where
  "grows s s1 = (next_task_id s \<le> next_task_id s1 \<and> next_tag_id s \<le> next_tag_id s1
     \<and> next_subtask_id s \<le> next_subtask_id s1)"

definition advances :: "store \<Rightarrow> store \<Rightarrow> bool" where
  "advances s s1 = (grows s s1 \<and> (consistent s \<longrightarrow> consistent s1))"

subsection \<open>Example stores and requests\<close>

definition milk_body :: create_body where
  "milk_body = \<lparr>c_title = Some ''Buy milk'', c_description = Some [], c_priority = None,
     c_due_date = Some 19000, c_tags = Some [''home'', ''shop''],
     c_subtasks = Some [''go'', ''pay'']\<rparr>"

definition milk_row :: task_row where
  "milk_row = \<lparr>task_id = 1, title = ''Buy milk'', description = None, priority = Medium,
     due_date = Some 19000, completed = Some 0, created_at = 100, updated_at = 100\<rparr>"

definition milk_task :: enriched where
  "milk_task = \<lparr>row = milk_row, tags = [''home'', ''shop''],
     subtasks = [(1, ''go'', Some 0), (2, ''pay'', Some 0)]\<rparr>"

definition go_row :: subtask_row where
  "go_row = \<lparr>subtask_id = 1, subtask_task_id = 1, subtask_text = ''go'',
     subtask_completed = Some 0, subtask_created_at = 100\<rparr>"

definition pay_row :: subtask_row where
  "pay_row = \<lparr>subtask_id = 2, subtask_task_id = 1, subtask_text = ''pay'',
     subtask_completed = Some 0, subtask_created_at = 100\<rparr>"

definition milk_store :: store where
  "milk_store = \<lparr>tasks_tbl = [milk_row],
     tags_tbl = [\<lparr>tag_id = 1, tag_task_id = 1, tag_name = ''home''\<rparr>,
                 \<lparr>tag_id = 2, tag_task_id = 1, tag_name = ''shop''\<rparr>],
     subtasks_tbl = [go_row, pay_row],
     next_task_id = 2, next_tag_id = 3, next_subtask_id = 3\<rparr>"

definition blank_body :: create_body where
  "blank_body = \<lparr>c_title = Some [CHR 0x20, CHR 0x09, CHR 0x20], c_description = None,
     c_priority = Some High, c_due_date = None, c_tags = Some [''urgent''],
     c_subtasks = Some [''first'']\<rparr>"

definition no_tags_body :: update_body where
  "no_tags_body = \<lparr>u_title = Some ''Buy milk'', u_description = None, u_priority = Some High,
     u_due_date = None, u_completed = Some (JBool True), u_tags = Some [], u_subtasks = None\<rparr>"

definition no_tags_row :: task_row where
  "no_tags_row = \<lparr>task_id = 1, title = ''Buy milk'', description = None, priority = High,
     due_date = None, completed = Some 1, created_at = 100, updated_at = 200\<rparr>"

definition no_tags_task :: enriched where
  "no_tags_task = \<lparr>row = no_tags_row, tags = [], subtasks = []\<rparr>"

definition no_tags_store :: store where
  "no_tags_store = \<lparr>tasks_tbl = [no_tags_row], tags_tbl = [], subtasks_tbl = [],
     next_task_id = 2, next_tag_id = 3, next_subtask_id = 3\<rparr>"

text \<open>An update that replaces two tags and two subtasks by others.\<close>

definition walk_body :: update_body where
  "walk_body = \<lparr>u_title = Some ''Buy milk'', u_description = None, u_priority = None,
     u_due_date = Some 19000, u_completed = None, u_tags = Some [''x'', ''y'', ''z''],
     u_subtasks = Some [Plain ''walk'', Structured (Some ''run'') (Some (JBool True)),
       Structured (Some ''rest'') None]\<rparr>"

text \<open>An update whose last subtask entry has no text: the last statement of the
  transaction fails.\<close>

definition bad_body :: update_body where
  "bad_body = \<lparr>u_title = Some ''Buy oat milk'', u_description = None, u_priority = None,
     u_due_date = None, u_completed = None, u_tags = Some [''x''],
     u_subtasks = Some [Plain ''walk'', Structured None (Some (JBool True))]\<rparr>"

definition empty_title_body :: update_body where
  "empty_title_body = \<lparr>u_title = Some [], u_description = None, u_priority = None,
     u_due_date = None, u_completed = None, u_tags = None, u_subtasks = None\<rparr>"

definition empty_title_row :: task_row where
  "empty_title_row = \<lparr>task_id = 1, title = [], description = None, priority = Medium,
     due_date = None, completed = Some 0, created_at = 100, updated_at = 200\<rparr>"

text \<open>An update that sets \<^verbatim>\<open>completed\<close> to 2.\<close>

definition two_body :: update_body where
  "two_body = \<lparr>u_title = Some ''x'', u_description = None, u_priority = None,
     u_due_date = None, u_completed = Some (JNum 2), u_tags = None, u_subtasks = None\<rparr>"

text \<open>Four tasks on day 20000: done and past due, open and past due, open without a due
  date, open and due today.\<close>

definition due_store :: store where
  "due_store = \<lparr>tasks_tbl =
       [milk_row\<lparr>completed := Some 1\<rparr>,
        milk_row\<lparr>task_id := 2\<rparr>,
        milk_row\<lparr>task_id := 3, due_date := None\<rparr>,
        milk_row\<lparr>task_id := 4, due_date := Some 20000\<rparr>],
     tags_tbl = [], subtasks_tbl = [],
     next_task_id = 5, next_tag_id = 1, next_subtask_id = 1\<rparr>"

definition due_stats :: stats where
  "due_stats = \<lparr>total = 4, completed_tasks = 1, active = 3, overdue = 1\<rparr>"

definition walk_task :: enriched where
  "walk_task = \<lparr>row = milk_row, tags = [''x'', ''y'', ''z''],
     subtasks = [(3, ''walk'', Some 0), (4, ''run'', Some 1), (5, ''rest'', Some 0)]\<rparr>"

definition walk_store :: store where
  "walk_store = \<lparr>tasks_tbl = [milk_row],
     tags_tbl = [\<lparr>tag_id = 3, tag_task_id = 1, tag_name = ''x''\<rparr>,
                 \<lparr>tag_id = 4, tag_task_id = 1, tag_name = ''y''\<rparr>,
                 \<lparr>tag_id = 5, tag_task_id = 1, tag_name = ''z''\<rparr>],
     subtasks_tbl =
       [\<lparr>subtask_id = 3, subtask_task_id = 1, subtask_text = ''walk'',
          subtask_completed = Some 0, subtask_created_at = 200\<rparr>,
        \<lparr>subtask_id = 4, subtask_task_id = 1, subtask_text = ''run'',
          subtask_completed = Some 1, subtask_created_at = 200\<rparr>,
        \<lparr>subtask_id = 5, subtask_task_id = 1, subtask_text = ''rest'',
          subtask_completed = Some 0, subtask_created_at = 200\<rparr>],
     next_task_id = 2, next_tag_id = 6, next_subtask_id = 6\<rparr>"

definition two_row :: task_row where
  "two_row = \<lparr>task_id = 1, title = ''x'', description = None, priority = Medium,
     due_date = None, completed = Some 2, created_at = 100, updated_at = 200\<rparr>"

definition two_task :: enriched where
  "two_task = \<lparr>row = two_row, tags = [], subtasks = []\<rparr>"

definition two_store :: store where
  "two_store = \<lparr>tasks_tbl = [two_row], tags_tbl = [], subtasks_tbl = [],
     next_task_id = 2, next_tag_id = 3, next_subtask_id = 3\<rparr>"

definition two_stats :: stats where
  "two_stats = \<lparr>total = 1, completed_tasks = 0, active = 0, overdue = 0\<rparr>"

section \<open>Properties of the handlers\<close>

subsection \<open>The statements, one by one\<close>

lemmas statement_defs = healthy_def begin_transaction_def commit_def rollback_def
  select_all_tasks_def select_task_def select_tags_def select_subtasks_def
  select_subtasks_by_id_def view_def insert_task_def fresh_ids_def insert_tags_def
  insert_subtasks_def touch_def check_exists_def update_row_def delete_tags_def
  delete_subtasks_def select_completed_def update_completed_def delete_task_row_def
  or_null_def or_medium_def or_false_def non_empty_def fetch_task_def
  truthy_def sql_bool_def sql_value_def tinyint_def truthy_column_def

lemmas example_defs = empty_store_def milk_body_def milk_row_def milk_task_def go_row_def
  pay_row_def milk_store_def blank_body_def no_tags_body_def no_tags_row_def
  no_tags_task_def no_tags_store_def walk_body_def walk_task_def walk_store_def
  bad_body_def empty_title_body_def empty_title_row_def two_body_def two_row_def
  two_task_def two_store_def two_stats_def due_store_def due_stats_def

lemmas count_defs = get_stats_def count_query_def count_where_def is_completed_def
  is_active_def is_overdue_def sql_and_def sql_eq_def sql_lt_def

lemma trim_blank: "\<forall>c\<in>set t. js_space c \<Longrightarrow> trim t = []"
  by (auto simp: trim_def dest: set_dropWhileD)

lemma rollback_same [simp]: "rollback s s = s"
  by (simp add: rollback_def)

lemma tables_rollback [simp]: "tables (rollback s0 s) = tables s0"
  by (simp add: tables_def rollback_def)

lemma tasks_rollback [simp]: "tasks_tbl (rollback s0 s) = tasks_tbl s0"
  by (simp add: rollback_def)

lemma commit_cases:
  "commit flt s = Inr s' \<Longrightarrow> s' = s \<and> \<not> flt Commit"
  "commit flt s = Inl (e, s') \<Longrightarrow> s' = s"
  by (auto simp: commit_def split: if_splits)

lemma begin_cases:
  "begin_transaction flt s = Inr s' \<Longrightarrow> s' = s"
  "begin_transaction flt s = Inl (e, s') \<Longrightarrow> s' = s"
  by (auto simp: begin_transaction_def split: if_splits)

lemma check_exists_cases:
  "check_exists flt s i = Inl (e, s') \<Longrightarrow> s' = s"
  "check_exists flt s i = Inr [] \<Longrightarrow> \<not> list_ex (\<lambda>t. task_id t = i) (tasks_tbl s)"
  by (auto simp: check_exists_def list_ex_iff filter_empty_conv split: if_splits)

lemma touch_id [simp]: "task_id r' = task_id r \<Longrightarrow> task_id (touch now r r') = task_id r"
  by (simp add: touch_def)

lemma touch_completed [simp]: "completed (touch now r (r\<lparr>completed := c\<rparr>)) = c"
proof (cases "r\<lparr>completed := c\<rparr> = r")
  case True
  then have "completed (r\<lparr>completed := c\<rparr>) = completed r" by simp
  with True show ?thesis by (simp add: touch_def)
next
  case False
  then show ?thesis by (simp add: touch_def)
qed


lemma map_zip_right:
  assumes "length xs = length ys" and "\<And>p. p \<in> set (zip xs ys) \<Longrightarrow> f p = g (snd p)"
  shows "map f (zip xs ys) = map g ys"
proof -
  have "map f (zip xs ys) = map (g \<circ> snd) (zip xs ys)"
    using assms(2) by (intro map_cong [OF refl]) simp
  also have "\<dots> = map g (map snd (zip xs ys))" by simp
  finally show ?thesis using assms(1) by simp
qed

lemma non_empty_supplied: "(case non_empty xs of None \<Rightarrow> [] | Some ys \<Rightarrow> ys) = supplied xs"
  by (auto simp: non_empty_def supplied_def split: option.splits list.splits)

lemma non_empty_cases: "non_empty xs = None \<or> non_empty xs = Some (supplied xs)"
  by (auto simp: non_empty_def supplied_def split: option.splits list.splits)

lemma non_empty_None: "non_empty xs = None \<Longrightarrow> supplied xs = []"
  by (auto simp: non_empty_def supplied_def split: option.splits list.splits)

lemma fresh_ids_ahead: "list_all (\<lambda>i. i < n) used \<Longrightarrow> fresh_ids n k used"
  by (auto simp: fresh_ids_def list_all_iff)

text \<open>The values that the handler computes for an entry are those that the specification
  asks for.\<close>

lemma subtask_values_requested:
  "(fst (subtask_values x), Some (snd (subtask_values x))) = requested_subtask x"
proof (cases x)
  case (Plain t)
  then show ?thesis by (simp add: sql_bool_def)
next
  case (Structured t c)
  show ?thesis
  proof (cases c)
    case None
    with Structured show ?thesis by (simp add: or_false_def sql_value_def sql_bool_def)
  next
    case (Some v)
    with Structured show ?thesis
      by (cases v) (simp_all add: or_false_def truthy_def sql_value_def sql_bool_def)
  qed
qed

lemma entry_fits_values:
  assumes "entry_fits x"
  shows "\<exists>t. fst (subtask_values x) = Some t \<and> length t \<le> 255"
    and "tinyint (snd (subtask_values x))"
proof -
  from assms obtain t c where x: "x = Plain t \<and> length t \<le> 255
      \<or> x = Structured (Some t) c \<and> length t \<le> 255 \<and> flag_fits c"
    by (cases x rule: entry_fits.cases) auto
  then show "\<exists>t. fst (subtask_values x) = Some t \<and> length t \<le> 255" by auto
  from x show "tinyint (snd (subtask_values x))"
    by (auto simp: sql_bool_def tinyint_def flag_fits_def or_false_def sql_value_def truthy_def
        split: option.splits json_flag.splits)
qed

lemma flag_fits_value: "flag_fits c \<Longrightarrow> tinyint (sql_value (or_false c))"
  by (auto simp: sql_bool_def tinyint_def flag_fits_def or_false_def sql_value_def truthy_def
      split: option.splits json_flag.splits)

subsubsection \<open>Inserting\<close>

lemma insert_task_effect:
  assumes "insert_task flt now t d p dd s = Inr (k, s1)"
  shows "k = next_task_id s"
    and "\<exists>r. tasks_tbl s1 = tasks_tbl s @ [r] \<and> title r = t \<and> task_id r = k"
    and "tags_tbl s1 = tags_tbl s" and "subtasks_tbl s1 = subtasks_tbl s"
  using assms by (auto simp: insert_task_def split: if_splits)

lemma insert_tags_effect:
  assumes "insert_tags flt i names s = Inr s1"
  shows "tags_of s1 i = tags_of s i @ names"
    and "subtasks_tbl s1 = subtasks_tbl s" and "tasks_tbl s1 = tasks_tbl s"
proof -
  let ?new = "map (\<lambda>(k, n). \<lparr>tag_id = k, tag_task_id = i, tag_name = n\<rparr>)
                (zip [next_tag_id s ..< next_tag_id s + length names] names)"
  from assms have s1: "tags_tbl s1 = tags_tbl s @ ?new"
    and rest: "subtasks_tbl s1 = subtasks_tbl s" "tasks_tbl s1 = tasks_tbl s"
    by (auto simp: insert_tags_def split: if_splits)
  from rest show "subtasks_tbl s1 = subtasks_tbl s" and "tasks_tbl s1 = tasks_tbl s"
    by simp_all
  have a: "filter (\<lambda>r. tag_task_id r = i) ?new = ?new"
    by (auto simp: filter_id_conv)
  have b: "map tag_name ?new = map (\<lambda>n. n) names"
    unfolding map_map by (rule map_zip_right) auto
  show "tags_of s1 i = tags_of s i @ names"
    unfolding tags_of_def s1 filter_append map_append a b by simp
qed

lemma insert_subtasks_effect:
  assumes "insert_subtasks flt now i vals s = Inr s1"
  shows "subtasks_of s1 i = subtasks_of s i @ map (\<lambda>v. (fst v, Some (snd v))) vals"
    and "tags_tbl s1 = tags_tbl s" and "tasks_tbl s1 = tasks_tbl s"
proof -
  let ?mk = "\<lambda>(k, v). \<lparr>subtask_id = k, subtask_task_id = i,
                subtask_text = (case fst v of None \<Rightarrow> [] | Some t \<Rightarrow> t),
                subtask_completed = Some (snd v), subtask_created_at = now\<rparr>"
  let ?new = "map ?mk (zip [next_subtask_id s ..< next_subtask_id s + length vals] vals)"
  from assms have s1: "subtasks_tbl s1 = subtasks_tbl s @ ?new"
    and rest: "tags_tbl s1 = tags_tbl s" "tasks_tbl s1 = tasks_tbl s"
    and nn: "\<forall>v\<in>set vals. fst v \<noteq> None"
    by (auto simp: insert_subtasks_def list_ex_iff split: if_splits)
  from rest show "tags_tbl s1 = tags_tbl s" and "tasks_tbl s1 = tasks_tbl s"
    by simp_all
  have a: "filter (\<lambda>r. subtask_task_id r = i) ?new = ?new"
    by (auto simp: filter_id_conv)
  have b: "map (\<lambda>r. (Some (subtask_text r), subtask_completed r)) ?new
         = map (\<lambda>v. (fst v, Some (snd v))) vals"
    unfolding map_map using nn by (intro map_zip_right) (auto dest!: set_zip_rightD)
  show "subtasks_of s1 i = subtasks_of s i @ map (\<lambda>v. (fst v, Some (snd v))) vals"
    unfolding subtasks_of_def s1 filter_append map_append a b ..
qed

lemma insert_task_accepts:
  assumes "length t \<le> 255" and "case d of None \<Rightarrow> True | Some x \<Rightarrow> length x \<le> 65535"
    and "list_all (\<lambda>r. task_id r < next_task_id s) (tasks_tbl s)"
  shows "\<exists>s1. insert_task healthy now t d p dd s = Inr (next_task_id s, s1)
    \<and> tags_tbl s1 = tags_tbl s \<and> subtasks_tbl s1 = subtasks_tbl s
    \<and> next_tag_id s1 = next_tag_id s \<and> next_subtask_id s1 = next_subtask_id s
    \<and> list_ex (\<lambda>r. task_id r = next_task_id s) (tasks_tbl s1)"
  using assms
  by (auto simp: insert_task_def healthy_def list_all_iff split: option.splits)

lemma insert_tags_accepts:
  assumes "list_all (\<lambda>n. length n \<le> 100) names"
    and "list_all (\<lambda>r. tag_id r < next_tag_id s) (tags_tbl s)"
  shows "\<exists>s1. insert_tags healthy i names s = Inr s1
    \<and> tasks_tbl s1 = tasks_tbl s \<and> subtasks_tbl s1 = subtasks_tbl s
    \<and> next_subtask_id s1 = next_subtask_id s"
proof -
  from assms(2) have "fresh_ids (next_tag_id s) (length names) (map tag_id (tags_tbl s))"
    by (intro fresh_ids_ahead) (simp add: list_all_iff)
  moreover from assms(1) have "\<not> list_ex (\<lambda>n. 100 < length n) names"
    by (auto simp: list_all_iff list_ex_iff)
  ultimately show ?thesis by (simp add: insert_tags_def healthy_def)
qed

lemma insert_subtasks_accepts:
  assumes "list_all (\<lambda>v. (\<exists>t. fst v = Some t \<and> length t \<le> 255) \<and> tinyint (snd v)) vals"
    and "list_all (\<lambda>r. subtask_id r < next_subtask_id s) (subtasks_tbl s)"
  shows "\<exists>s1. insert_subtasks healthy now i vals s = Inr s1 \<and> tasks_tbl s1 = tasks_tbl s"
proof -
  from assms(2) have "fresh_ids (next_subtask_id s) (length vals) (map subtask_id (subtasks_tbl s))"
    by (intro fresh_ids_ahead) (simp add: list_all_iff)
  moreover from assms(1)
  have "\<not> list_ex (\<lambda>v. case fst v of None \<Rightarrow> False | Some t \<Rightarrow> 255 < length t) vals"
    by (fastforce simp: list_all_iff list_ex_iff)
  moreover from assms(1) have "\<not> list_ex (\<lambda>v. fst v = None) vals"
    by (fastforce simp: list_all_iff list_ex_iff)
  moreover from assms(1) have "\<not> list_ex (\<lambda>v. \<not> tinyint (snd v)) vals"
    by (auto simp: list_all_iff list_ex_iff)
  ultimately show ?thesis by (simp add: insert_subtasks_def healthy_def)
qed

subsubsection \<open>Updating and deleting\<close>

lemma update_row_children:
  "update_row flt now i t d p dd c s = Inr s1
     \<Longrightarrow> tags_tbl s1 = tags_tbl s \<and> subtasks_tbl s1 = subtasks_tbl s"
  by (auto simp: update_row_def split: if_splits option.splits)

lemma update_row_accepts:
  assumes "length t \<le> 255" and "case d of None \<Rightarrow> True | Some x \<Rightarrow> length x \<le> 65535"
    and "tinyint c"
  shows "\<exists>s1. update_row healthy now i (Some t) d p dd c s = Inr s1
    \<and> map task_id (tasks_tbl s1) = map task_id (tasks_tbl s)
    \<and> tags_tbl s1 = tags_tbl s \<and> subtasks_tbl s1 = subtasks_tbl s
    \<and> next_tag_id s1 = next_tag_id s \<and> next_subtask_id s1 = next_subtask_id s"
  using assms
  by (auto simp: update_row_def healthy_def touch_def split: option.splits)

lemma delete_tags_effect:
  "delete_tags flt i s = Inr s1 \<Longrightarrow> tags_of s1 i = [] \<and> subtasks_tbl s1 = subtasks_tbl s"
  by (auto simp: delete_tags_def tags_of_def split: if_splits)

lemma delete_subtasks_effect:
  "delete_subtasks flt i s = Inr s1 \<Longrightarrow> subtasks_of s1 i = [] \<and> tags_tbl s1 = tags_tbl s"
  by (auto simp: delete_subtasks_def subtasks_of_def split: if_splits)

subsection \<open>The transactions\<close>

lemma create_steps_tasks:
  assumes "create_steps flt now t b s = Inr (k, s1)"
  shows "\<exists>r. tasks_tbl s1 = tasks_tbl s @ [r] \<and> title r = t \<and> task_id r = k"
proof -
  from assms obtain s2 s3 where
    1: "insert_task flt now t (or_null (c_description b)) (or_medium (c_priority b))
          (c_due_date b) s = Inr (k, s2)"
    and 2: "(case non_empty (c_tags b) of None \<Rightarrow> Inr s2
             | Some tg \<Rightarrow> insert_tags flt k tg s2) = Inr s3"
    and 3: "(case non_empty (c_subtasks b) of None \<Rightarrow> Inr s3
             | Some st \<Rightarrow> insert_subtasks flt now k (map (\<lambda>x. (Some x, sql_bool False)) st) s3)
            = Inr s1"
    by (auto simp: create_steps_def split: sum.splits prod.splits)
  from 2 have "tasks_tbl s3 = tasks_tbl s2"
    by (auto split: option.splits dest: insert_tags_effect)
  moreover from 3 have "tasks_tbl s1 = tasks_tbl s3"
    by (auto split: option.splits dest: insert_subtasks_effect)
  ultimately show ?thesis using insert_task_effect(2)[OF 1] by simp
qed

lemma update_steps_children:
  assumes "update_steps flt now i b s = Inr s'"
  shows "tags_of s' i = supplied (u_tags b)"
    and "subtasks_of s' i = map requested_subtask (supplied (u_subtasks b))"
proof -
  from assms obtain s1 s2 s3 s4 where
    1: "update_row flt now i (u_title b) (or_null (u_description b)) (or_medium (u_priority b))
          (u_due_date b) (sql_value (or_false (u_completed b))) s = Inr s1"
    and 2: "delete_tags flt i s1 = Inr s2"
    and 3: "(case non_empty (u_tags b) of None \<Rightarrow> Inr s2
             | Some tg \<Rightarrow> insert_tags flt i tg s2) = Inr s3"
    and 4: "delete_subtasks flt i s3 = Inr s4"
    and 5: "(case non_empty (u_subtasks b) of None \<Rightarrow> Inr s4
             | Some st \<Rightarrow> insert_subtasks flt now i (map subtask_values st) s4) = Inr s'"
    by (auto simp: update_steps_def split: sum.splits)
  from 3 delete_tags_effect[OF 2] have t3: "tags_of s3 i = supplied (u_tags b)"
    using non_empty_supplied[of "u_tags b"]
    by (auto split: option.splits dest: insert_tags_effect)
  from 4 have t4: "tags_tbl s4 = tags_tbl s3" using delete_subtasks_effect by blast
  from 5 have t5: "tags_tbl s' = tags_tbl s4"
    by (auto split: option.splits dest: insert_subtasks_effect)
  show "tags_of s' i = supplied (u_tags b)"
    using t3 t4 t5 by (simp add: tags_of_def)
  have r: "map (\<lambda>v. (fst v, Some (snd v))) (map subtask_values st) = map requested_subtask st"
    for st
    by (simp add: subtask_values_requested)
  from 5 delete_subtasks_effect[OF 4]
  show "subtasks_of s' i = map requested_subtask (supplied (u_subtasks b))"
    using non_empty_supplied[of "u_subtasks b"] r
    by (auto split: option.splits dest!: insert_subtasks_effect(1))
qed

lemma update_ok_cases:
  assumes "update_task flt now s i b = ((200, bd), s')"
  shows "\<exists>e. bd = Task e \<and> update_steps flt now i b s = Inr s' \<and> fetch_task flt s' i = Inr e"
  using assms
  by (auto simp: update_task_def split: sum.splits list.splits prod.splits
      dest!: commit_cases begin_cases)

text \<open>What \<^verbatim>\<open>POST\<close> and \<^verbatim>\<open>PUT\<close> answer after the commit is what \<^verbatim>\<open>GET\<close> answers then.\<close>

lemma fetch_then_get:
  assumes "fetch_task flt s i = Inr e"
  shows "get_task healthy s i = ((200, Task e), s)" and "task_id (row e) = i"
    and "tags e = tags_of s i"
    and "map (\<lambda>(k, t, c). (Some t, c)) (subtasks e) = subtasks_of s i"
    and "map fst (subtasks e) = map subtask_id (filter (\<lambda>r. subtask_task_id r = i) (subtasks_tbl s))"
proof -
  from assms obtain t ts where f: "filter (\<lambda>r. task_id r = i) (tasks_tbl s) = t # ts"
    and e: "e = \<lparr>row = t, tags = map tag_name (filter (\<lambda>r. tag_task_id r = i) (tags_tbl s)),
                 subtasks = map view (filter (\<lambda>r. subtask_task_id r = i) (subtasks_tbl s))\<rparr>"
    by (auto simp: fetch_task_def select_task_def select_tags_def select_subtasks_def
        split: if_splits list.splits)
  from f have t: "task_id t = i"
    by (metis (mono_tags, lifting) Cons_eq_filterD)
  show "task_id (row e) = i" by (simp add: e t)
  show "get_task healthy s i = ((200, Task e), s)"
    by (simp add: get_task_def select_task_def select_tags_def select_subtasks_def healthy_def f e t)
  show "tags e = tags_of s i" by (simp add: e tags_of_def)
  show "map (\<lambda>(k, t, c). (Some t, c)) (subtasks e) = subtasks_of s i"
    by (simp add: e subtasks_of_def view_def)
  show "map fst (subtasks e) = map subtask_id (filter (\<lambda>r. subtask_task_id r = i) (subtasks_tbl s))"
    by (simp add: e view_def comp_def)
qed

lemma fetch_task_healthy:
  assumes "list_ex (\<lambda>r. task_id r = i) (tasks_tbl s)"
  shows "\<exists>e. fetch_task healthy s i = Inr e"
proof -
  from assms obtain r rs where "filter (\<lambda>r. task_id r = i) (tasks_tbl s) = r # rs"
    by (cases "filter (\<lambda>r. task_id r = i) (tasks_tbl s)")
       (auto simp: list_ex_iff filter_empty_conv)
  then show ?thesis
    by (simp add: fetch_task_def select_task_def select_tags_def select_subtasks_def healthy_def)
qed

text \<open>A request that fits is accepted by a store that answers.\<close>

lemma create_task_accepts:
  assumes b: "fits b" and s: "counters_ahead s"
  shows "\<exists>e s'. create_task healthy now s b = ((201, Task e), s')"
proof -
  from b obtain t where t: "c_title b = Some t" "trim t \<noteq> []" "length t \<le> 255"
    by (auto simp: fits_def split: option.splits)
  from b have tg: "list_all (\<lambda>n. length n \<le> 100) (supplied (c_tags b))"
    and "list_all (\<lambda>x. length x \<le> 255) (supplied (c_subtasks b))"
    by (simp_all add: fits_def)
  then have st: "list_all (\<lambda>v. (\<exists>t. fst v = Some t \<and> length t \<le> 255) \<and> tinyint (snd v))
      (map (\<lambda>x. (Some x, sql_bool False)) (supplied (c_subtasks b)))"
    by (simp add: list_all_iff sql_bool_def tinyint_def)
  from t(2) have t0: "t \<noteq> []" by (auto simp: trim_def)
  from b have d: "case or_null (c_description b) of None \<Rightarrow> True | Some x \<Rightarrow> length x \<le> 65535"
    by (auto simp: fits_def or_null_def split: option.splits)
  from s have c1: "list_all (\<lambda>r. task_id r < next_task_id s) (tasks_tbl s)"
    and c2: "list_all (\<lambda>r. tag_id r < next_tag_id s) (tags_tbl s)"
    and c3: "list_all (\<lambda>r. subtask_id r < next_subtask_id s) (subtasks_tbl s)"
    by (simp_all add: counters_ahead_def)
  let ?k = "next_task_id s"
  from insert_task_accepts[OF t(3) d c1] obtain s1 where
    1: "insert_task healthy now t (or_null (c_description b)) (or_medium (c_priority b))
          (c_due_date b) s = Inr (?k, s1)"
    and f1: "tags_tbl s1 = tags_tbl s" "subtasks_tbl s1 = subtasks_tbl s"
      "next_tag_id s1 = next_tag_id s" "next_subtask_id s1 = next_subtask_id s"
      "list_ex (\<lambda>r. task_id r = ?k) (tasks_tbl s1)"
    by blast
  have "\<exists>s2. (case non_empty (c_tags b) of None \<Rightarrow> Inr s1
               | Some tg \<Rightarrow> insert_tags healthy ?k tg s1) = Inr s2
      \<and> tasks_tbl s2 = tasks_tbl s1 \<and> subtasks_tbl s2 = subtasks_tbl s1
      \<and> next_subtask_id s2 = next_subtask_id s1"
    using non_empty_cases[of "c_tags b"] insert_tags_accepts[OF tg, of s1 ?k] c2 f1
    by auto
  then obtain s2 where
    2: "(case non_empty (c_tags b) of None \<Rightarrow> Inr s1
         | Some tg \<Rightarrow> insert_tags healthy ?k tg s1) = Inr s2"
    and f2: "tasks_tbl s2 = tasks_tbl s1" "subtasks_tbl s2 = subtasks_tbl s1"
      "next_subtask_id s2 = next_subtask_id s1"
    by blast
  have "\<exists>s3. (case non_empty (c_subtasks b) of None \<Rightarrow> Inr s2
               | Some st \<Rightarrow> insert_subtasks healthy now ?k (map (\<lambda>x. (Some x, sql_bool False)) st) s2)
             = Inr s3
      \<and> tasks_tbl s3 = tasks_tbl s2"
    using non_empty_cases[of "c_subtasks b"] insert_subtasks_accepts[OF st, of s2 now ?k] c3 f1 f2
    by auto
  then obtain s3 where
    3: "(case non_empty (c_subtasks b) of None \<Rightarrow> Inr s2
         | Some st \<Rightarrow> insert_subtasks healthy now ?k (map (\<lambda>x. (Some x, sql_bool False)) st) s2)
        = Inr s3"
    and f3: "tasks_tbl s3 = tasks_tbl s2"
    by blast
  from 1 2 3 have steps: "create_steps healthy now t b s = Inr (?k, s3)"
    by (simp add: create_steps_def)
  from f1(5) f2(1) f3 have "\<exists>e. fetch_task healthy s3 ?k = Inr e"
    by (intro fetch_task_healthy) simp
  with steps t t0 show ?thesis
    by (auto simp: create_task_def begin_transaction_def commit_def healthy_def)
qed

lemma update_task_accepts:
  assumes b: "fits_update b" and i: "list_ex (\<lambda>r. task_id r = i) (tasks_tbl s)"
    and s: "counters_ahead s"
  shows "\<exists>e s'. update_task healthy now s i b = ((200, Task e), s')"
proof -
  from b obtain t where t: "u_title b = Some t" "length t \<le> 255"
    by (auto simp: fits_update_def split: option.splits)
  from b have d: "case or_null (u_description b) of None \<Rightarrow> True | Some x \<Rightarrow> length x \<le> 65535"
    by (auto simp: fits_update_def or_null_def split: option.splits)
  from b have c: "tinyint (sql_value (or_false (u_completed b)))"
    by (simp add: fits_update_def flag_fits_value)
  from b have tg: "list_all (\<lambda>n. length n \<le> 100) (supplied (u_tags b))"
    and "list_all entry_fits (supplied (u_subtasks b))"
    by (simp_all add: fits_update_def)
  then have st: "list_all (\<lambda>v. (\<exists>t. fst v = Some t \<and> length t \<le> 255) \<and> tinyint (snd v))
      (map subtask_values (supplied (u_subtasks b)))"
    by (auto simp: list_all_iff dest: entry_fits_values)
  from s have c2: "list_all (\<lambda>r. tag_id r < next_tag_id s) (tags_tbl s)"
    and c3: "list_all (\<lambda>r. subtask_id r < next_subtask_id s) (subtasks_tbl s)"
    by (simp_all add: counters_ahead_def)
  from update_row_accepts[OF t(2) d c] obtain s1 where
    1: "update_row healthy now i (u_title b) (or_null (u_description b)) (or_medium (u_priority b))
          (u_due_date b) (sql_value (or_false (u_completed b))) s = Inr s1"
    and f1: "map task_id (tasks_tbl s1) = map task_id (tasks_tbl s)"
      "tags_tbl s1 = tags_tbl s" "subtasks_tbl s1 = subtasks_tbl s"
      "next_tag_id s1 = next_tag_id s" "next_subtask_id s1 = next_subtask_id s"
    unfolding t(1) by blast
  define s2 where "s2 = s1\<lparr>tags_tbl := filter (\<lambda>r. tag_task_id r \<noteq> i) (tags_tbl s1)\<rparr>"
  have 2: "delete_tags healthy i s1 = Inr s2"
    by (simp add: delete_tags_def healthy_def s2_def)
  from c2 f1 have a2: "list_all (\<lambda>r. tag_id r < next_tag_id s2) (tags_tbl s2)"
    by (auto simp: s2_def list_all_iff)
  have "\<exists>s3. (case non_empty (u_tags b) of None \<Rightarrow> Inr s2
               | Some tg \<Rightarrow> insert_tags healthy i tg s2) = Inr s3
      \<and> tasks_tbl s3 = tasks_tbl s2 \<and> subtasks_tbl s3 = subtasks_tbl s2
      \<and> next_subtask_id s3 = next_subtask_id s2"
    using non_empty_cases[of "u_tags b"] insert_tags_accepts[OF tg a2, of i]
    by auto
  then obtain s3 where
    3: "(case non_empty (u_tags b) of None \<Rightarrow> Inr s2
         | Some tg \<Rightarrow> insert_tags healthy i tg s2) = Inr s3"
    and f3: "tasks_tbl s3 = tasks_tbl s2" "subtasks_tbl s3 = subtasks_tbl s2"
      "next_subtask_id s3 = next_subtask_id s2"
    by blast
  define s4 where "s4 = s3\<lparr>subtasks_tbl := filter (\<lambda>r. subtask_task_id r \<noteq> i) (subtasks_tbl s3)\<rparr>"
  have 4: "delete_subtasks healthy i s3 = Inr s4"
    by (simp add: delete_subtasks_def healthy_def s4_def)
  from c3 f1 f3 have a4: "list_all (\<lambda>r. subtask_id r < next_subtask_id s4) (subtasks_tbl s4)"
    by (auto simp: s4_def s2_def list_all_iff)
  have "\<exists>s5. (case non_empty (u_subtasks b) of None \<Rightarrow> Inr s4
               | Some st \<Rightarrow> insert_subtasks healthy now i (map subtask_values st) s4) = Inr s5
      \<and> tasks_tbl s5 = tasks_tbl s4"
    using non_empty_cases[of "u_subtasks b"] insert_subtasks_accepts[OF st a4, of now i]
    by auto
  then obtain s5 where
    5: "(case non_empty (u_subtasks b) of None \<Rightarrow> Inr s4
         | Some st \<Rightarrow> insert_subtasks healthy now i (map subtask_values st) s4) = Inr s5"
    and f5: "tasks_tbl s5 = tasks_tbl s4"
    by blast
  from 1 2 3 4 5 have steps: "update_steps healthy now i b s = Inr s5"
    by (simp add: update_steps_def)
  have "map task_id (tasks_tbl s5) = map task_id (tasks_tbl s)"
    using f1(1) f3(1) f5 by (simp add: s2_def s4_def)
  then have "task_id ` set (tasks_tbl s5) = task_id ` set (tasks_tbl s)"
    by (metis set_map)
  moreover from i have "i \<in> task_id ` set (tasks_tbl s)"
    by (auto simp: list_ex_iff)
  ultimately have "i \<in> task_id ` set (tasks_tbl s5)" by simp
  then have ex: "list_ex (\<lambda>r. task_id r = i) (tasks_tbl s5)"
    unfolding list_ex_iff by blast
  from fetch_task_healthy[OF ex] obtain e where e: "fetch_task healthy s5 i = Inr e" ..
  from i obtain x xs where x: "filter (\<lambda>r. task_id r = i) (tasks_tbl s) = x # xs"
    by (cases "filter (\<lambda>r. task_id r = i) (tasks_tbl s)")
       (auto simp: list_ex_iff filter_empty_conv)
  from steps e x show ?thesis
    by (simp add: update_task_def begin_transaction_def check_exists_def commit_def healthy_def)
qed

subsection \<open>Titles\<close>

text \<open>\<^verbatim>\<open>POST\<close> stores no blank title, and neither the toggle nor the deletion changes a
  title.\<close>

lemma create_task_titles:
  assumes "create_task flt now s b = (r, s')" and "x \<in> set (tasks_tbl s')"
  shows "x \<in> set (tasks_tbl s) \<or> trim (title x) \<noteq> []"
  using assms unfolding create_task_def
  by (auto split: sum.splits option.splits if_splits prod.splits
      dest!: begin_cases commit_cases create_steps_tasks)

lemma toggle_task_titles:
  "toggle_task flt now s i = (r, s') \<Longrightarrow> map title (tasks_tbl s') = map title (tasks_tbl s)"
  by (auto simp: toggle_task_def select_completed_def update_completed_def touch_def
      split: sum.splits list.splits if_splits)

lemma delete_task_titles:
  "delete_task flt s i = (r, s') \<Longrightarrow> set (tasks_tbl s') \<subseteq> set (tasks_tbl s)"
  by (auto simp: delete_task_def delete_task_row_def split: sum.splits if_splits)

subsection \<open>The counting queries\<close>

lemma completed_iff: "is_completed r = Some True \<longleftrightarrow> completed r = Some 1"
  by (auto simp: is_completed_def sql_eq_def sql_bool_def split: option.splits)

lemma active_iff: "is_active r = Some True \<longleftrightarrow> completed r = Some 0"
  by (auto simp: is_active_def sql_eq_def sql_bool_def split: option.splits)

lemma overdue_iff:
  "is_overdue today r = Some True
     \<longleftrightarrow> (completed r = Some 0 \<and> (\<exists>d. due_date r = Some d \<and> d < today))"
  by (auto simp: is_overdue_def is_active_def sql_and_def sql_eq_def sql_lt_def sql_bool_def
      split: option.splits)

lemma length_filter_three:
  assumes "\<And>x. \<not> (P x \<and> Q x)"
  shows "length xs = length (filter P xs) + length (filter Q xs)
       + length (filter (\<lambda>x. \<not> P x \<and> \<not> Q x) xs)"
  using assms by (induction xs) auto

lemma count_split:
  "count_where (\<lambda>r. Some True) s
     = count_where is_completed s + count_where is_active s
       + length (filter (\<lambda>r. completed r \<noteq> Some 1 \<and> completed r \<noteq> Some 0) (tasks_tbl s))"
  unfolding count_where_def completed_iff active_iff
  using length_filter_three[of "\<lambda>r. completed r = Some 1" "\<lambda>r. completed r = Some 0" "tasks_tbl s"]
  by simp

subsection \<open>The toggle\<close>


subsection \<open>The order of the subtasks\<close>



text \<open>The other handlers return them in the order of the table, which every statement
  keeps ascending: an insertion takes its ids from the counter, which is ahead of the ids
  in the table, and a rollback leaves the counter where it is.\<close>

lemma advances_refl [simp]: "advances s s"
  by (simp add: advances_def grows_def)

lemma advances_trans: "advances s s1 \<Longrightarrow> advances s1 s2 \<Longrightarrow> advances s s2"
  by (auto simp: advances_def grows_def)

lemma advances_rollback: "advances s s1 \<Longrightarrow> advances s (rollback s s1)"
  by (auto simp: advances_def grows_def consistent_def counters_ahead_def rollback_def
      list_all_iff)

lemma ahead_mono:
  "list_all (\<lambda>r. f r < n) xs \<Longrightarrow> n \<le> m \<Longrightarrow> list_all (\<lambda>r. f r < (m::nat)) xs"
  by (auto simp: list_all_iff)

lemma ahead_new:
  assumes "\<And>k y. f (g (k, y)) = k"
  shows "list_all (\<lambda>r. f r < n + length ys) (map g (zip [n ..< n + length ys] ys))"
  using assms by (auto simp: list_all_iff dest!: set_zip_leftD)

lemma ids_new:
  assumes "\<And>k y. f (g (k, y)) = k"
  shows "map f (map g (zip [n ..< n + length ys] ys)) = [n ..< n + length ys]"
proof -
  have "map (f \<circ> g) (zip [n ..< n + length ys] ys) = map fst (zip [n ..< n + length ys] ys)"
    using assms by (intro map_cong [OF refl]) auto
  then show ?thesis by simp
qed

lemma sorted_append_new:
  assumes "sorted (map f xs)" and "list_all (\<lambda>r. f r < n) xs"
    and "map f ys = [n ..< n + k]"
  shows "sorted (map f (xs @ ys))"
  using assms by (auto simp: sorted_append list_all_iff)

lemma insert_task_advances:
  "insert_task flt now t d p dd s = Inr (k, s1) \<Longrightarrow> advances s s1"
  "insert_task flt now t d p dd s = Inl (e, s1) \<Longrightarrow> advances s s1"
  using ahead_mono[of task_id "next_task_id s" "tasks_tbl s" "Suc (next_task_id s)"]
  by (auto simp: insert_task_def advances_def grows_def consistent_def counters_ahead_def
      split: if_splits)

lemma insert_tags_advances:
  "insert_tags flt i names s = Inr s1 \<Longrightarrow> advances s s1"
  "insert_tags flt i names s = Inl (e, s1) \<Longrightarrow> advances s s1"
  using ahead_mono[of tag_id "next_tag_id s" "tags_tbl s" "next_tag_id s + length names"]
    ahead_new[of tag_id "\<lambda>(k, n). \<lparr>tag_id = k, tag_task_id = i, tag_name = n\<rparr>"
      "next_tag_id s" names]
  by (auto simp: insert_tags_def advances_def grows_def consistent_def counters_ahead_def
      split: if_splits)

lemma insert_subtasks_advances:
  "insert_subtasks flt now i vals s = Inr s1 \<Longrightarrow> advances s s1"
  "insert_subtasks flt now i vals s = Inl (e, s1) \<Longrightarrow> advances s s1"
proof -
  let ?g = "\<lambda>(k, v). \<lparr>subtask_id = k, subtask_task_id = i,
                subtask_text = (case fst v of None \<Rightarrow> [] | Some t \<Rightarrow> t),
                subtask_completed = Some (snd v), subtask_created_at = now\<rparr>"
  let ?n = "next_subtask_id s"
  let ?new = "map ?g (zip [?n ..< ?n + length vals] vals)"
  have ids: "map subtask_id ?new = [?n ..< ?n + length vals]"
    by (rule ids_new) simp
  have new: "list_all (\<lambda>r. subtask_id r < ?n + length vals) ?new"
    by (rule ahead_new) simp
  have c: "consistent (s\<lparr>subtasks_tbl := subtasks_tbl s @ ?new,
                          next_subtask_id := ?n + length vals\<rparr>)"
    if "consistent s"
    using that new sorted_append_new[OF _ _ ids, of "subtasks_tbl s"]
      ahead_mono[of subtask_id ?n "subtasks_tbl s" "?n + length vals"]
    by (simp add: consistent_def counters_ahead_def)
  show "insert_subtasks flt now i vals s = Inr s1 \<Longrightarrow> advances s s1"
    using c by (auto simp: insert_subtasks_def advances_def grows_def split: if_splits)
  show "insert_subtasks flt now i vals s = Inl (e, s1) \<Longrightarrow> advances s s1"
    by (auto simp: insert_subtasks_def split: if_splits)
qed

lemma update_row_advances:
  "update_row flt now i t d p dd c s = Inr s1 \<Longrightarrow> advances s s1"
  "update_row flt now i t d p dd c s = Inl (e, s1) \<Longrightarrow> advances s s1"
  by (auto simp: update_row_def advances_def grows_def consistent_def counters_ahead_def
      list_all_iff touch_def split: if_splits option.splits)

lemma delete_tags_advances:
  "delete_tags flt i s = Inr s1 \<Longrightarrow> advances s s1"
  "delete_tags flt i s = Inl (e, s1) \<Longrightarrow> advances s s1"
  by (auto simp: delete_tags_def advances_def grows_def consistent_def counters_ahead_def
      list_all_iff split: if_splits)

lemma delete_subtasks_advances:
  "delete_subtasks flt i s = Inr s1 \<Longrightarrow> advances s s1"
  "delete_subtasks flt i s = Inl (e, s1) \<Longrightarrow> advances s s1"
  by (auto simp: delete_subtasks_def advances_def grows_def consistent_def counters_ahead_def
      list_all_iff sorted_filter split: if_splits)

lemma update_completed_advances:
  "update_completed flt now i c s = Inr s1 \<Longrightarrow> advances s s1"
  by (auto simp: update_completed_def advances_def grows_def consistent_def counters_ahead_def
      list_all_iff touch_def split: if_splits)

lemma delete_task_row_advances:
  "delete_task_row flt i s = Inr (n, s1) \<Longrightarrow> advances s s1"
  by (auto simp: delete_task_row_def advances_def grows_def consistent_def counters_ahead_def
      list_all_iff sorted_filter split: if_splits)

lemma create_steps_advances:
  "create_steps flt now t b s = Inr (k, s') \<Longrightarrow> advances s s'"
  "create_steps flt now t b s = Inl (e, s') \<Longrightarrow> advances s s'"
  unfolding create_steps_def
  by (auto split: sum.splits prod.splits option.splits
      dest!: insert_task_advances insert_tags_advances insert_subtasks_advances;
      blast intro: advances_trans)+

lemma update_steps_advances:
  "update_steps flt now i b s = Inr s' \<Longrightarrow> advances s s'"
  "update_steps flt now i b s = Inl (e, s') \<Longrightarrow> advances s s'"
  unfolding update_steps_def
  by (auto split: sum.splits prod.splits option.splits
      dest!: update_row_advances delete_tags_advances delete_subtasks_advances
        insert_tags_advances insert_subtasks_advances;
      blast intro: advances_trans)+

lemma create_task_advances: "advances s (snd (create_task flt now s b))"
  unfolding create_task_def
  by (auto split: sum.splits prod.splits option.splits
      dest!: begin_cases commit_cases create_steps_advances
      intro: advances_rollback)

lemma update_task_advances: "advances s (snd (update_task flt now s i b))"
  unfolding update_task_def
  by (auto split: sum.splits prod.splits list.splits
      dest!: begin_cases commit_cases check_exists_cases(1) update_steps_advances
      intro: advances_rollback)

lemma toggle_task_advances: "advances s (snd (toggle_task flt now s i))"
  unfolding toggle_task_def
  by (auto split: sum.splits list.splits dest!: update_completed_advances)

lemma delete_task_advances: "advances s (snd (delete_task flt s i))"
  unfolding delete_task_def
  by (auto split: sum.splits prod.splits dest!: delete_task_row_advances)

lemma consistent_empty: "consistent empty_store"
  by (simp add: consistent_def counters_ahead_def empty_store_def)

lemma reachable_consistent: "reachable s \<Longrightarrow> consistent s"
proof (induction rule: reachable.induct)
  case initial
  show ?case by (rule consistent_empty)
next
  case (created s flt now b)
  with create_task_advances[of s flt now b] show ?case by (simp add: advances_def)
next
  case (updated s flt now i u)
  with update_task_advances[of s flt now i u] show ?case by (simp add: advances_def)
next
  case (toggled s flt now i)
  with toggle_task_advances[of s flt now i] show ?case by (simp add: advances_def)
next
  case (deleted s flt i)
  with delete_task_advances[of s flt i] show ?case by (simp add: advances_def)
qed

lemma reachable_counters_ahead: "reachable s \<Longrightarrow> counters_ahead s"
  using reachable_consistent by (simp add: consistent_def)





subsection \<open>The examples, evaluated\<close>

lemma create_milk:
  "create_task healthy 100 empty_store milk_body = ((201, Task milk_task), milk_store)"
  by (simp add: create_task_def create_steps_def statement_defs example_defs trim_def
      js_space_def upt_rec)

lemma reachable_milk: "reachable milk_store"
  using reachable.created[OF reachable.initial, of healthy 100 milk_body]
  by (simp add: create_milk)

lemma update_no_tags:
  "update_task healthy 200 milk_store 1 no_tags_body = ((200, Task no_tags_task), no_tags_store)"
  by (simp add: update_task_def update_steps_def statement_defs example_defs)

lemma update_walk:
  "update_task healthy 200 milk_store 1 walk_body = ((200, Task walk_task), walk_store)"
  by (simp add: update_task_def update_steps_def statement_defs example_defs upt_rec)

lemma update_two:
  "update_task healthy 200 milk_store 1 two_body = ((200, Task two_task), two_store)"
  by (simp add: update_task_def update_steps_def statement_defs example_defs)

lemma reachable_two: "reachable two_store"
proof -
  have "reachable (snd (update_task healthy 200 milk_store 1 two_body))"
    by (rule reachable.updated[OF reachable_milk])
  then show ?thesis unfolding update_two snd_conv .
qed

lemma update_bad:
  "update_task healthy 200 milk_store 1 bad_body
     = ((500, Error ''Failed to update task''), milk_store\<lparr>next_tag_id := 4\<rparr>)"
  by (simp add: update_task_def update_steps_def statement_defs example_defs)

lemma update_bad_steps:
  "\<exists>s1. update_steps healthy 200 1 bad_body milk_store = Inl (Column_Null, s1)
     \<and> title (hd (tasks_tbl s1)) = ''Buy oat milk'' \<and> tags_of s1 1 = [''x'']
     \<and> subtasks_of s1 1 = []"
  by (simp add: update_steps_def statement_defs example_defs tags_of_def subtasks_of_def)

text \<open>When the read-back after the commit fails, the answer is 500 and the update stays:
  the \<^verbatim>\<open>rollback\<close> of the \<^verbatim>\<open>catch\<close> finds no open transaction.\<close>

lemma update_read_back_fails:
  "update_task (\<lambda>q. q = Select_Tags) 200 milk_store 1 no_tags_body
     = ((500, Error ''Failed to update task''), no_tags_store)"
  by (simp add: update_task_def update_steps_def statement_defs example_defs)

lemma stats_due:
  "get_stats healthy 20000 due_store = ((200, Stats due_stats), due_store)"
  by (simp add: count_defs statement_defs example_defs)

lemma stats_two:
  "get_stats healthy 20000 two_store = ((200, Stats two_stats), two_store)"
  by (simp add: count_defs statement_defs example_defs)

section \<open>The claims\<close>

text \<open>
  C1. Round trip: when \<^verbatim>\<open>POST /api/tasks\<close> answers 201 with a task, \<^verbatim>\<open>GET /api/tasks/:id\<close>
  on the id of that task answers 200 with the same task, equal in every column, in its
  tags and in its subtasks; and every request that passes the validation and fits the
  columns is answered 201 by a store that responds and whose counters are ahead of its
  ids.
\<close>

theorem create_then_get:
  "(create_task flt now s b = ((201, Task e), s')
      \<longrightarrow> get_task healthy s' (task_id (row e)) = ((200, Task e), s'))
   \<and> (fits b \<and> counters_ahead s
      \<longrightarrow> (\<exists>e1 s1. create_task healthy now s b = ((201, Task e1), s1)
            \<and> get_task healthy s1 (task_id (row e1)) = ((200, Task e1), s1)))"
proof -
  have rt: "get_task healthy s2 (task_id (row e2)) = ((200, Task e2), s2)"
    if "create_task f now s b = ((201, Task e2), s2)" for f e2 s2
  proof -
    from that obtain i where "fetch_task f s2 i = Inr e2"
      by (auto simp: create_task_def split: sum.splits option.splits if_splits prod.splits)
    then show ?thesis using fetch_then_get(1,2) by metis
  qed
  show ?thesis
    using rt create_task_accepts[of b s now] by blast
qed

theorem create_then_get_witness:
  "fits milk_body \<and> counters_ahead empty_store
   \<and> create_task healthy 100 empty_store milk_body = ((201, Task milk_task), milk_store)
   \<and> get_task healthy milk_store 1 = ((200, Task milk_task), milk_store)"
proof -
  have f: "fits milk_body"
    by (simp add: fits_def milk_body_def supplied_def trim_def js_space_def)
  have c: "counters_ahead empty_store"
    by (simp add: counters_ahead_def empty_store_def)
  have i: "task_id (row milk_task) = 1"
    by (simp add: milk_task_def milk_row_def)
  from create_then_get[of healthy 100 empty_store milk_body milk_task milk_store] create_milk
  have "get_task healthy milk_store (task_id (row milk_task)) = ((200, Task milk_task), milk_store)"
    by simp
  with f c i create_milk show ?thesis by simp
qed

text \<open>
  C2. Update replaces: when \<^verbatim>\<open>PUT /api/tasks/:id\<close> answers 200, the tag names stored for
  the task are exactly the names of the request, and the subtasks stored for it are
  exactly what the specification asks for each entry of the request
  (\<open>requested_subtask\<close>: its text, and its flag or not completed), none when the list is
  empty or absent; a get that follows answers with that task. Every update of an existing
  task that has a title and fits the columns is answered 200 by a store that responds and
  whose counters are ahead. The witness replaces two tags and two subtasks by three of each,
  and runs the scenario of the specification: a task created with two tags and updated
  with none is returned with an empty list of tags.
\<close>

theorem update_replaces_children:
  "(update_task flt now s i b = ((200, bd), s')
      \<longrightarrow> tags_of s' i = supplied (u_tags b)
        \<and> subtasks_of s' i = map requested_subtask (supplied (u_subtasks b))
        \<and> (\<exists>e. bd = Task e \<and> get_task healthy s' i = ((200, Task e), s')
              \<and> tags e = supplied (u_tags b)
              \<and> map (\<lambda>(k, t, c). (Some t, c)) (subtasks e)
                  = map requested_subtask (supplied (u_subtasks b))))
   \<and> (fits_update b \<and> list_ex (\<lambda>r. task_id r = i) (tasks_tbl s) \<and> counters_ahead s
      \<longrightarrow> (\<exists>e1 s1. update_task healthy now s i b = ((200, Task e1), s1)
            \<and> tags e1 = supplied (u_tags b)
            \<and> map (\<lambda>(k, t, c). (Some t, c)) (subtasks e1)
                = map requested_subtask (supplied (u_subtasks b))))"
proof -
  have a: "tags_of s2 i = supplied (u_tags b)
        \<and> subtasks_of s2 i = map requested_subtask (supplied (u_subtasks b))
        \<and> (\<exists>e. bd2 = Task e \<and> get_task healthy s2 i = ((200, Task e), s2)
              \<and> tags e = supplied (u_tags b)
              \<and> map (\<lambda>(k, t, c). (Some t, c)) (subtasks e)
                  = map requested_subtask (supplied (u_subtasks b)))"
    if u: "update_task f now s i b = ((200, bd2), s2)" for f bd2 s2
  proof -
    from update_ok_cases[OF u] obtain e where e: "bd2 = Task e"
      and st: "update_steps f now i b s = Inr s2" and fe: "fetch_task f s2 i = Inr e"
      by blast
    note ch = update_steps_children[OF st]
    from fetch_then_get(1,3,4)[OF fe] ch e show ?thesis by simp
  qed
  have b: "\<exists>e1 s1. update_task healthy now s i b = ((200, Task e1), s1)
            \<and> tags e1 = supplied (u_tags b)
            \<and> map (\<lambda>(k, t, c). (Some t, c)) (subtasks e1)
                = map requested_subtask (supplied (u_subtasks b))"
    if "fits_update b" and "list_ex (\<lambda>r. task_id r = i) (tasks_tbl s)" and "counters_ahead s"
  proof -
    from update_task_accepts[OF that, of now] obtain e1 s1 where
      u: "update_task healthy now s i b = ((200, Task e1), s1)"
      by blast
    from a[OF u] u show ?thesis by auto
  qed
  from a b show ?thesis by blast
qed

theorem update_replaces_children_witness:
  "fits_update walk_body \<and> list_ex (\<lambda>r. task_id r = 1) (tasks_tbl milk_store)
   \<and> counters_ahead milk_store
   \<and> tags_of milk_store 1 = [''home'', ''shop'']
   \<and> subtasks_of milk_store 1 = [(Some ''go'', Some 0), (Some ''pay'', Some 0)]
   \<and> update_task healthy 200 milk_store 1 walk_body = ((200, Task walk_task), walk_store)
   \<and> tags_of walk_store 1 = [''x'', ''y'', ''z'']
   \<and> subtasks_of walk_store 1
       = [(Some ''walk'', Some 0), (Some ''run'', Some 1), (Some ''rest'', Some 0)]
   \<and> get_task healthy walk_store 1 = ((200, Task walk_task), walk_store)
   \<and> create_task healthy 100 empty_store milk_body = ((201, Task milk_task), milk_store)
   \<and> tags milk_task = [''home'', ''shop'']
   \<and> update_task healthy 200 milk_store 1 no_tags_body = ((200, Task no_tags_task), no_tags_store)
   \<and> get_task healthy no_tags_store 1 = ((200, Task no_tags_task), no_tags_store)
   \<and> tags no_tags_task = []"
proof -
  have f: "fits_update walk_body"
    by (simp add: fits_update_def walk_body_def supplied_def flag_fits_def)
  have x: "list_ex (\<lambda>r. task_id r = 1) (tasks_tbl milk_store)"
    by (simp add: milk_store_def milk_row_def)
  have c: "counters_ahead milk_store"
    by (simp add: counters_ahead_def milk_store_def milk_row_def go_row_def pay_row_def)
  have o: "tags_of milk_store 1 = [''home'', ''shop'']"
    "subtasks_of milk_store 1 = [(Some ''go'', Some 0), (Some ''pay'', Some 0)]"
    by (simp_all add: tags_of_def subtasks_of_def milk_store_def go_row_def pay_row_def)
  have w: "supplied (u_tags walk_body) = [''x'', ''y'', ''z'']"
    "map requested_subtask (supplied (u_subtasks walk_body))
       = [(Some ''walk'', Some 0), (Some ''run'', Some 1), (Some ''rest'', Some 0)]"
    by (simp_all add: supplied_def walk_body_def)
  have n: "supplied (u_tags no_tags_body) = []"
    by (simp add: supplied_def no_tags_body_def)
  have t: "tags milk_task = [''home'', ''shop'']" by (simp add: milk_task_def)
  from update_replaces_children[of healthy 200 milk_store 1 walk_body "Task walk_task" walk_store]
    update_walk w
  have 1: "tags_of walk_store 1 = [''x'', ''y'', ''z'']
    \<and> subtasks_of walk_store 1
       = [(Some ''walk'', Some 0), (Some ''run'', Some 1), (Some ''rest'', Some 0)]
    \<and> get_task healthy walk_store 1 = ((200, Task walk_task), walk_store)"
    by auto
  from update_replaces_children[of healthy 200 milk_store 1 no_tags_body "Task no_tags_task"
      no_tags_store] update_no_tags n
  have 2: "get_task healthy no_tags_store 1 = ((200, Task no_tags_task), no_tags_store)
    \<and> tags no_tags_task = []"
    by auto
  from f x c o 1 2 t create_milk update_walk update_no_tags show ?thesis by simp
qed

text \<open>
  C3. Atomic update: whatever fails and wherever, the tables after \<^verbatim>\<open>PUT /api/tasks/:id\<close>
  are either the tables before the request or the tables after all statements of the
  transaction, and the latter only when every statement and the commit succeeded. When a
  statement of the transaction on an existing task fails, the answer is 500 and the tasks,
  tags and subtasks are those before the request. In the witness the row was updated and
  the tags were replaced before the insertion of the subtasks failed.
\<close>

theorem update_all_or_nothing:
  "(let r = update_task flt now s i b in
      (list_ex (\<lambda>t. task_id t = i) (tasks_tbl s) \<and> isl (update_steps flt now i b s)
         \<longrightarrow> fst r = (500, Error ''Failed to update task'') \<and> tables (snd r) = tables s)
    \<and> (tables (snd r) \<noteq> tables s
         \<longrightarrow> (\<exists>s1. update_steps flt now i b s = Inr s1 \<and> \<not> flt Commit
                \<and> tables (snd r) = tables s1)))"
  unfolding Let_def update_task_def
  by (auto split: sum.splits list.splits prod.splits
      dest!: begin_cases commit_cases check_exists_cases)

theorem update_all_or_nothing_witness:
  "list_ex (\<lambda>t. task_id t = 1) (tasks_tbl milk_store)
   \<and> isl (update_steps healthy 200 1 bad_body milk_store)
   \<and> tags_of (snd (projl (update_steps healthy 200 1 bad_body milk_store))) 1 = [''x'']
   \<and> fst (update_task healthy 200 milk_store 1 bad_body) = (500, Error ''Failed to update task'')
   \<and> tables (snd (update_task healthy 200 milk_store 1 bad_body)) = tables milk_store"
proof -
  have a: "list_ex (\<lambda>t. task_id t = 1) (tasks_tbl milk_store)"
    by (simp add: milk_store_def milk_row_def)
  from update_bad_steps obtain s1 where
    s1: "update_steps healthy 200 1 bad_body milk_store = Inl (Column_Null, s1)"
    and t1: "tags_of s1 1 = [''x'']"
    by blast
  from s1 have b: "isl (update_steps healthy 200 1 bad_body milk_store)" by simp
  from update_all_or_nothing[of healthy 200 milk_store 1 bad_body] a b
  have "fst (update_task healthy 200 milk_store 1 bad_body) = (500, Error ''Failed to update task'')
      \<and> tables (snd (update_task healthy 200 milk_store 1 bad_body)) = tables milk_store"
    by (simp add: Let_def)
  with a b s1 t1 show ?thesis by simp
qed

text \<open>
  C4. Overdue: the count \<^verbatim>\<open>overdue\<close> of \<^verbatim>\<open>GET /api/stats\<close> is the number of tasks whose
  \<^verbatim>\<open>completed\<close> column is false (0) and whose due date is before the current date; a
  completed task, a task without a due date and a task due today or later are not
  counted.
\<close>

theorem stats_overdue_count:
  assumes "get_stats flt today s = ((200, Stats st), s')"
  shows "overdue st
    = length (filter (\<lambda>r. completed r = Some 0 \<and> (\<exists>d. due_date r = Some d \<and> d < today))
        (tasks_tbl s))"
  using assms
  by (auto simp: get_stats_def count_query_def count_where_def overdue_iff split: if_splits)

theorem stats_overdue_count_witness:
  "get_stats healthy 20000 due_store = ((200, Stats due_stats), due_store)
   \<and> map (\<lambda>r. (completed r, due_date r)) (tasks_tbl due_store)
       = [(Some 1, Some 19000), (Some 0, Some 19000), (Some 0, None), (Some 0, Some 20000)]
   \<and> overdue due_stats = 1
   \<and> length (filter (\<lambda>r. completed r = Some 0 \<and> (\<exists>d. due_date r = Some d \<and> d < 20000))
        (tasks_tbl due_store)) = 1"
proof -
  have o: "overdue due_stats = 1" by (simp add: due_stats_def)
  have m: "map (\<lambda>r. (completed r, due_date r)) (tasks_tbl due_store)
       = [(Some 1, Some 19000), (Some 0, Some 19000), (Some 0, None), (Some 0, Some 20000)]"
    by (simp add: due_store_def milk_row_def)
  from stats_overdue_count[OF stats_due] o m stats_due show ?thesis by simp
qed

text \<open>
  C5. Blank title: a creation request whose title is missing, empty or made of white space
  leaves the store as it was, and is answered 400 (once the transaction has begun, which
  the handler does before it validates).
\<close>

theorem create_blank_title:
  assumes "c_title b = None \<or> (\<exists>t. c_title b = Some t \<and> (\<forall>c\<in>set t. js_space c))"
  shows "snd (create_task flt now s b) = s
     \<and> (\<not> flt Begin \<longrightarrow> fst (create_task flt now s b) = (400, Error ''Title is required''))"
  using assms
  by (auto simp: create_task_def begin_transaction_def trim_blank)

theorem create_blank_title_witness:
  "c_title blank_body = Some [CHR 0x20, CHR 0x09, CHR 0x20]
   \<and> list_all js_space [CHR 0x20, CHR 0x09, CHR 0x20]
   \<and> create_task healthy 100 milk_store blank_body = ((400, Error ''Title is required''), milk_store)
   \<and> length (tasks_tbl milk_store) = 1"
proof -
  have t: "c_title blank_body = Some [CHR 0x20, CHR 0x09, CHR 0x20]"
    by (simp add: blank_body_def)
  have w: "list_all js_space [CHR 0x20, CHR 0x09, CHR 0x20]"
    by (simp add: js_space_def)
  have h: "\<not> healthy Begin" by (simp add: healthy_def)
  from t w have "c_title blank_body = None
      \<or> (\<exists>t. c_title blank_body = Some t \<and> (\<forall>c\<in>set t. js_space c))"
    by (simp add: list_all_iff)
  from create_blank_title[OF this, of healthy 100 milk_store] h
  have "create_task healthy 100 milk_store blank_body = ((400, Error ''Title is required''), milk_store)"
    by (simp add: prod_eq_iff)
  with t w show ?thesis by (simp add: milk_store_def)
qed



text \<open>
  C7. No stored task has an empty title. \<^verbatim>\<open>POST\<close> keeps this (lemma
  \<open>create_task_titles\<close>), the toggle and the deletion change no title; \<^verbatim>\<open>PUT\<close> does not
  validate the title: an update of task 1 with the title \<^verbatim>\<open>""\<close> is answered 200 and the
  stored title is empty.
\<close>

theorem update_stores_empty_title:
  "trim (title milk_row) \<noteq> [] \<and> tasks_tbl milk_store = [milk_row]
   \<and> u_title empty_title_body = Some []
   \<and> update_task healthy 200 milk_store 1 empty_title_body
       = ((200, Task \<lparr>row = empty_title_row, tags = [], subtasks = []\<rparr>),
          milk_store\<lparr>tasks_tbl := [empty_title_row], tags_tbl := [], subtasks_tbl := []\<rparr>)
   \<and> title empty_title_row = []"
proof -
  have u: "update_task healthy 200 milk_store 1 empty_title_body
       = ((200, Task \<lparr>row = empty_title_row, tags = [], subtasks = []\<rparr>),
          milk_store\<lparr>tasks_tbl := [empty_title_row], tags_tbl := [], subtasks_tbl := []\<rparr>)"
    by (simp add: update_task_def update_steps_def statement_defs example_defs)
  have t: "trim (title milk_row) \<noteq> []"
    by (simp add: milk_row_def trim_def js_space_def)
  from u t show ?thesis
    by (simp add: milk_store_def empty_title_body_def empty_title_row_def)
qed



text \<open>
  C9. Not found: for an id that no task has, a store that answers makes the get, the
  update, the deletion and the toggle answer 404, and the store is as it was.
\<close>

theorem not_found_everywhere:
  assumes "\<not> list_ex (\<lambda>r. task_id r = i) (tasks_tbl s)"
  shows "get_task healthy s i = ((404, Error ''Task not found''), s)
     \<and> update_task healthy now s i b = ((404, Error ''Task not found''), s)
     \<and> delete_task healthy s i = ((404, Error ''Task not found''), s)
     \<and> toggle_task healthy now s i = ((404, Error ''Task not found''), s)"
proof -
  from assms have e: "filter (\<lambda>r. task_id r = i) (tasks_tbl s) = []"
    by (simp add: list_ex_iff filter_empty_conv)
  have "get_task healthy s i = ((404, Error ''Task not found''), s)"
    by (simp add: get_task_def select_task_def healthy_def e)
  moreover have "update_task healthy now s i b = ((404, Error ''Task not found''), s)"
    by (simp add: update_task_def begin_transaction_def check_exists_def healthy_def e)
  moreover have "delete_task healthy s i = ((404, Error ''Task not found''), s)"
    using assms by (simp add: delete_task_def delete_task_row_def healthy_def e)
  moreover have "toggle_task healthy now s i = ((404, Error ''Task not found''), s)"
    by (simp add: toggle_task_def select_completed_def healthy_def e)
  ultimately show ?thesis by simp
qed

theorem not_found_everywhere_witness:
  "map task_id (tasks_tbl milk_store) = [1]
   \<and> get_task healthy milk_store 7 = ((404, Error ''Task not found''), milk_store)
   \<and> update_task healthy 200 milk_store 7 no_tags_body = ((404, Error ''Task not found''), milk_store)
   \<and> delete_task healthy milk_store 7 = ((404, Error ''Task not found''), milk_store)
   \<and> toggle_task healthy 200 milk_store 7 = ((404, Error ''Task not found''), milk_store)"
proof -
  have i: "map task_id (tasks_tbl milk_store) = [1]"
    by (simp add: milk_store_def milk_row_def)
  have "\<not> list_ex (\<lambda>r. task_id r = 7) (tasks_tbl milk_store)"
    by (simp add: milk_store_def milk_row_def)
  from not_found_everywhere[OF this, of 200 no_tags_body] i show ?thesis by simp
qed

text \<open>
  C10. Statistics: \<^verbatim>\<open>total\<close> is the sum of \<^verbatim>\<open>completed\<close> and \<^verbatim>\<open>active\<close>. This fails:
  \<^verbatim>\<open>PUT\<close> stores \<^verbatim>\<open>completed\<close> as the request sends it, and after an update with
  \<^verbatim>\<open>completed: 2\<close> the task is counted by \<^verbatim>\<open>total\<close> and by neither of the other two
  queries, which compare the column with 1 and with 0.
\<close>

theorem stats_total_split_counterexample:
  "reachable milk_store
   \<and> update_task healthy 200 milk_store 1 two_body = ((200, Task two_task), two_store)
   \<and> get_stats healthy 20000 two_store = ((200, Stats two_stats), two_store)
   \<and> total two_stats = 1 \<and> completed_tasks two_stats = 0 \<and> active two_stats = 0
   \<and> total two_stats \<noteq> completed_tasks two_stats + active two_stats"
  using reachable_milk update_two stats_two by (simp add: two_stats_def)

text \<open>
  C10, amended. In every answer 200 of \<^verbatim>\<open>GET /api/stats\<close> computed on one state of the
  store, \<^verbatim>\<open>total\<close> is the sum of \<^verbatim>\<open>completed\<close>, of \<^verbatim>\<open>active\<close> and of the number of tasks
  whose \<^verbatim>\<open>completed\<close> column is neither 1 nor 0; so \<^verbatim>\<open>total\<close> is the sum of \<^verbatim>\<open>completed\<close>
  and \<^verbatim>\<open>active\<close> when every task has 1 or 0 in that column.
\<close>

theorem stats_total_partition:
  assumes "get_stats flt today s = ((200, Stats st), s')"
  shows "total st = completed_tasks st + active st
           + length (filter (\<lambda>r. completed r \<noteq> Some 1 \<and> completed r \<noteq> Some 0) (tasks_tbl s))
     \<and> (list_all (\<lambda>r. completed r = Some 1 \<or> completed r = Some 0) (tasks_tbl s)
          \<longrightarrow> total st = completed_tasks st + active st)"
proof -
  from assms have t: "total st = count_where (\<lambda>r. Some True) s"
    and c: "completed_tasks st = count_where is_completed s"
    and a: "active st = count_where is_active s"
    by (auto simp: get_stats_def count_query_def split: if_splits)
  have "filter (\<lambda>r. completed r \<noteq> Some 1 \<and> completed r \<noteq> Some 0) (tasks_tbl s) = []"
    if "list_all (\<lambda>r. completed r = Some 1 \<or> completed r = Some 0) (tasks_tbl s)"
    using that by (auto simp: list_all_iff filter_empty_conv)
  with count_split[of s] t c a show ?thesis by auto
qed

theorem stats_total_partition_witness:
  "get_stats healthy 20000 due_store = ((200, Stats due_stats), due_store)
   \<and> list_all (\<lambda>r. completed r = Some 1 \<or> completed r = Some 0) (tasks_tbl due_store)
   \<and> total due_stats = 4 \<and> completed_tasks due_stats = 1 \<and> active due_stats = 3
   \<and> total due_stats = completed_tasks due_stats + active due_stats
   \<and> get_stats healthy 20000 two_store = ((200, Stats two_stats), two_store)
   \<and> length (filter (\<lambda>r. completed r \<noteq> Some 1 \<and> completed r \<noteq> Some 0) (tasks_tbl two_store)) = 1
   \<and> total two_stats = completed_tasks two_stats + active two_stats + 1"
proof -
  have v: "total due_stats = 4" "completed_tasks due_stats = 1" "active due_stats = 3"
    by (simp_all add: due_stats_def)
  have b: "list_all (\<lambda>r. completed r = Some 1 \<or> completed r = Some 0) (tasks_tbl due_store)"
    by (simp add: due_store_def milk_row_def)
  have n: "length (filter (\<lambda>r. completed r \<noteq> Some 1 \<and> completed r \<noteq> Some 0)
      (tasks_tbl two_store)) = 1"
    by (simp add: two_store_def two_row_def)
  from stats_total_partition[OF stats_due] b
  have 1: "total due_stats = completed_tasks due_stats + active due_stats" by blast
  from stats_total_partition[OF stats_two] n
  have 2: "total two_stats = completed_tasks two_stats + active two_stats + 1" by simp
  from v b n 1 2 stats_due stats_two show ?thesis by simp
qed

end
